theory Spec2Isabelle
  imports Complex_Main "HOL-Library.Multiset"
begin

section \<open>Time\<close>

text \<open>
  Go's \<^verbatim>\<open>time.Time\<close> is modelled as a point on the integer line, counted in
  nanoseconds since the Unix epoch, and \<^verbatim>\<open>time.Duration\<close> as a number of
  nanoseconds. A Duration is an int64: \<^verbatim>\<open>Time.Sub\<close> saturates at the smallest and
  the largest int64 instead of wrapping, and that is written out here.
\<close>

type_synonym Time = int
type_synonym Duration = int

definition minDuration :: Duration where
  "minDuration = - (2 ^ 63)"

definition maxDuration :: Duration where
  "maxDuration = 2 ^ 63 - 1"

definition Second :: Duration where
  "Second = 1000000000"

definition Minute :: Duration where
  "Minute = 60 * Second"

text \<open>The zero \<^verbatim>\<open>time.Time\<close> is January 1 of year 1, 00:00 UTC.\<close>

definition zeroTime :: Time where
  "zeroTime = - 62135596800 * Second"

text \<open>\<^verbatim>\<open>t.Sub(u)\<close>: the difference, clamped to the int64 range.\<close>

definition time_Sub :: "Time \<Rightarrow> Time \<Rightarrow> Duration" where
  "time_Sub t u =
     (if t - u < minDuration then minDuration
      else if maxDuration < t - u then maxDuration
      else t - u)"

text \<open>\<^verbatim>\<open>t.Add(d)\<close>.\<close>

definition time_Add :: "Time \<Rightarrow> Duration \<Rightarrow> Time" where
  "time_Add t d = t + d"

text \<open>Unary minus on an int64: the smallest value is its own negation.\<close>

definition neg64 :: "Duration \<Rightarrow> Duration" where
  "neg64 d = (if d = minDuration then minDuration else - d)"

text \<open>
  \<^verbatim>\<open>d.Milliseconds()\<close> is \<^verbatim>\<open>int64(d) / 1e6\<close>, and Go's integer division
  truncates toward zero.
\<close>

definition Milliseconds :: "Duration \<Rightarrow> int" where
  "Milliseconds d = (if d < 0 then - ((- d) div 1000000) else d div 1000000)"

section \<open>Status updates sent to the Status Manager\<close>

text \<open>
  Modelled from the spec: the declarations of \<^verbatim>\<open>types.AgentState\<close>,
  \<^verbatim>\<open>types.HealthStatus\<close>, \<^verbatim>\<open>types.StatusSource\<close> and
  \<^verbatim>\<open>types.AgentStatusUpdate\<close> are not among the sources. The constructors are the
  constants the code uses and the values the spec lists; the fields of the update are
  the four that the code sets.
\<close>

datatype AgentState =
  AgentStateActive | AgentStateInactive | AgentStateStarting | AgentStateStopping | AgentStateError

datatype HealthStatus =
  HealthStatusActive | HealthStatusInactive | HealthStatusUnknown

datatype StatusSource =
  StatusSourceHeartbeat | StatusSourceHealthCheck | StatusSourcePresence
  | StatusSourceReconcile | StatusSourceManual

record AgentStatusUpdate =
  State :: "AgentState option"
  HealthScore :: "int option"
  Source :: StatusSource
  Reason :: string

text \<open>
  What a component does to its collaborators is recorded as a trace of calls, in the
  order the code makes them.
\<close>

datatype effect =
  UpdateAgentStatus string AgentStatusUpdate
  | UpdateAgentHealth string HealthStatus
  | GetAgent string
  | PresenceTouch string Time
  | CheckMCPHealth string
  | PublishNodeOnline string
  | PublishNodeOffline string
  | PublishNodeHealthChanged string HealthStatus
  | OnNodeStatusChanged string
  | ExpireCallback string

section \<open>Presence Manager\<close>

record PresenceManagerConfig =
  HeartbeatTTL :: Duration
  SweepInterval :: Duration
  HardEvictTTL :: Duration

record presenceLease =
  LastSeen :: Time
  LastExpired :: Time
  MarkedOffline :: bool

text \<open>
  The lease map is an association list with one entry per node: the order of the list
  is the order in which one sweep happens to walk the Go map.

  \<open>statusManager\<close> is \<open>None\<close> for a nil Status Manager; otherwise it tells, for a
  node, whether \<^verbatim>\<open>UpdateAgentStatus\<close> returns without an error.
  \<open>expireCallback\<close> tells whether a callback is installed.
\<close>

type_synonym leaseMap = "(string \<times> presenceLease) list"

record PresenceManager =
  statusManager :: "(string \<Rightarrow> bool) option"
  config :: PresenceManagerConfig
  leases :: leaseMap
  expireCallback :: bool

definition NewPresenceManager ::
  "(string \<Rightarrow> bool) option \<Rightarrow> PresenceManagerConfig \<Rightarrow> PresenceManager" where
  "NewPresenceManager sm cfg =
     (let c1 = (if HeartbeatTTL cfg = 0 then cfg\<lparr>HeartbeatTTL := 15 * Second\<rparr> else cfg);
          c2 = (if SweepInterval c1 = 0
                then (let s = (if HeartbeatTTL c1 < 0 then - ((- HeartbeatTTL c1) div 3)
                               else HeartbeatTTL c1 div 3)
                      in c1\<lparr>SweepInterval := (if s < Second then Second else s)\<rparr>)
                else c1);
          c3 = (if HardEvictTTL c2 = 0 then c2\<lparr>HardEvictTTL := 5 * Minute\<rparr> else c2)
      in \<lparr>statusManager = sm, config = c3, leases = [], expireCallback = False\<rparr>)"

fun touchLease :: "string \<Rightarrow> Time \<Rightarrow> leaseMap \<Rightarrow> leaseMap" where
  "touchLease nodeID seenAt [] =
     [(nodeID, \<lparr>LastSeen = seenAt, LastExpired = zeroTime, MarkedOffline = False\<rparr>)]"
| "touchLease nodeID seenAt ((k, lease) # rest) =
     (if k = nodeID then (k, lease\<lparr>LastSeen := seenAt, MarkedOffline := False\<rparr>) # rest
      else (k, lease) # touchLease nodeID seenAt rest)"

definition Touch :: "string \<Rightarrow> Time \<Rightarrow> PresenceManager \<Rightarrow> PresenceManager" where
  "Touch nodeID seenAt pm = pm\<lparr>leases := touchLease nodeID seenAt (leases pm)\<rparr>"

definition Forget :: "string \<Rightarrow> PresenceManager \<Rightarrow> PresenceManager" where
  "Forget nodeID pm = pm\<lparr>leases := filter (\<lambda>(k, lease). k \<noteq> nodeID) (leases pm)\<rparr>"

definition HasLease :: "string \<Rightarrow> PresenceManager \<Rightarrow> bool" where
  "HasLease nodeID pm = (map_of (leases pm) nodeID \<noteq> None)"

definition SetExpireCallback :: "bool \<Rightarrow> PresenceManager \<Rightarrow> PresenceManager" where
  "SetExpireCallback fn pm = pm\<lparr>expireCallback := fn\<rparr>"

text \<open>
  The locked loop of \<^verbatim>\<open>checkExpirations\<close>: it returns the lease map after the
  sweep and the nodes appended to \<^verbatim>\<open>expired\<close>.
\<close>

fun sweepLeases :: "PresenceManagerConfig \<Rightarrow> Time \<Rightarrow> leaseMap \<Rightarrow> leaseMap \<times> string list" where
  "sweepLeases cfg now [] = ([], [])"
| "sweepLeases cfg now ((nodeID, lease) # rest) =
     (let (rest', expired) = sweepLeases cfg now rest in
      if HeartbeatTTL cfg \<le> time_Sub now (LastSeen lease) then
        if \<not> MarkedOffline lease then
          ((nodeID, lease\<lparr>MarkedOffline := True, LastExpired := now\<rparr>) # rest', nodeID # expired)
        else if 0 < HardEvictTTL cfg \<and> HardEvictTTL cfg \<le> time_Sub now (LastSeen lease) then
          (rest', expired)
        else ((nodeID, lease) # rest', expired)
      else ((nodeID, lease) # rest', expired))"

definition presenceExpiredUpdate :: AgentStatusUpdate where
  "presenceExpiredUpdate =
     \<lparr>State = Some AgentStateInactive, HealthScore = Some 0,
      Source = StatusSourcePresence, Reason = ''presence lease expired''\<rparr>"

definition markInactive :: "PresenceManager \<Rightarrow> string \<Rightarrow> effect list" where
  "markInactive pm nodeID =
     (case statusManager pm of
        None \<Rightarrow> []
      | Some updateOk \<Rightarrow>
          if \<not> updateOk nodeID then [UpdateAgentStatus nodeID presenceExpiredUpdate]
          else UpdateAgentStatus nodeID presenceExpiredUpdate
               # (if expireCallback pm then [ExpireCallback nodeID] else []))"

definition checkExpirations :: "Time \<Rightarrow> PresenceManager \<Rightarrow> PresenceManager \<times> effect list" where
  "checkExpirations now pm =
     (let (ls, expired) = sweepLeases (config pm) now (leases pm)
      in (pm\<lparr>leases := ls\<rparr>, concat (map (markInactive pm) expired)))"

text \<open>
  The sweep loop run at the given instants with no touch in between; it returns the
  manager after the last sweep and everything the sweeps sent out.
\<close>

fun runSweeps :: "Time list \<Rightarrow> PresenceManager \<Rightarrow> PresenceManager \<times> effect list" where
  "runSweeps [] pm = (pm, [])"
| "runSweeps (now # later) pm =
     (let (pm1, out1) = checkExpirations now pm;
          (pm2, out2) = runSweeps later pm1
      in (pm2, out1 @ out2))"

text \<open>The Status Manager updates for one node among a trace.\<close>

fun isStatusUpdateFor :: "string \<Rightarrow> effect \<Rightarrow> bool" where
  "isStatusUpdateFor nodeID (UpdateAgentStatus n u) = (n = nodeID)"
| "isStatusUpdateFor nodeID e = False"

text \<open>
  What one sweep does to a single lease, and whether it soft-expires it: the body of the
  loop in \<^verbatim>\<open>checkExpirations\<close>, read entry by entry. \<open>None\<close> is a deleted lease.
\<close>

definition leaseAfterSweep ::
  "PresenceManagerConfig \<Rightarrow> Time \<Rightarrow> presenceLease \<Rightarrow> presenceLease option" where
  "leaseAfterSweep cfg now lease =
     (if HeartbeatTTL cfg \<le> time_Sub now (LastSeen lease) then
        if \<not> MarkedOffline lease then Some (lease\<lparr>MarkedOffline := True, LastExpired := now\<rparr>)
        else if 0 < HardEvictTTL cfg \<and> HardEvictTTL cfg \<le> time_Sub now (LastSeen lease) then None
        else Some lease
      else Some lease)"

definition softExpires :: "PresenceManagerConfig \<Rightarrow> Time \<Rightarrow> presenceLease \<Rightarrow> bool" where
  "softExpires cfg now lease =
     (HeartbeatTTL cfg \<le> time_Sub now (LastSeen lease) \<and> \<not> MarkedOffline lease)"

text \<open>
  A manager built with the default configuration (heartbeat TTL 15 s, hard-evict TTL
  5 min) and a Status Manager that accepts every update, holding one lease for
  \<open>node-1\<close> touched at time 0.
\<close>

definition acceptAll :: "string \<Rightarrow> bool" where
  "acceptAll nodeID = True"

definition defaultPresence :: PresenceManager where
  "defaultPresence =
     Touch ''node-1'' 0
       (NewPresenceManager (Some acceptAll)
          \<lparr>HeartbeatTTL = 0, SweepInterval = 0, HardEvictTTL = 0\<rparr>)"

section \<open>Execution records\<close>

text \<open>
  One row of the \<^verbatim>\<open>executions\<close> table, as \<^verbatim>\<open>types.Execution\<close> holds it: the
  nineteen columns that \<^verbatim>\<open>CreateExecutionRecord\<close> writes and \<^verbatim>\<open>scanExecution\<close>
  reads, with the types \<^verbatim>\<open>scanExecution\<close> gives them. A NULL
  column is \<open>None\<close>; a NULL payload is the empty byte string, which is how
  \<^verbatim>\<open>bytesOrNil\<close> writes it and \<^verbatim>\<open>scanExecution\<close> reads it back. The last two
  fields are not columns: they are filled in from the webhook tables after a read.
\<close>

type_synonym ExecutionWebhookEvent = string

record Execution =
  ExecutionID :: string
  RunID :: string
  ParentExecutionID :: "string option"
  AgentNodeID :: string
  ReasonerID :: string
  NodeID :: string
  Status :: string
  InputPayload :: string
  ResultPayload :: string
  ErrorMessage :: "string option"
  InputURI :: "string option"
  ResultURI :: "string option"
  SessionID :: "string option"
  ActorID :: "string option"
  StartedAt :: Time
  CompletedAt :: "Time option"
  DurationMS :: "int option"
  CreatedAt :: Time
  UpdatedAt :: Time
  WebhookRegistered :: bool
  WebhookEvents :: "ExecutionWebhookEvent list"

text \<open>
  Modelled from the spec: the string values of the \<^verbatim>\<open>types.ExecutionStatus*\<close>
  constants, whose declarations are not among the sources. The three non-terminal
  values also appear as literals in the SQL of \<^verbatim>\<open>MarkStaleExecutions\<close>.
\<close>

definition ExecutionStatusPending :: string where
  "ExecutionStatusPending = ''pending''"

definition ExecutionStatusQueued :: string where
  "ExecutionStatusQueued = ''queued''"

definition ExecutionStatusRunning :: string where
  "ExecutionStatusRunning = ''running''"

definition ExecutionStatusSucceeded :: string where
  "ExecutionStatusSucceeded = ''succeeded''"

definition ExecutionStatusFailed :: string where
  "ExecutionStatusFailed = ''failed''"

definition ExecutionStatusCancelled :: string where
  "ExecutionStatusCancelled = ''cancelled''"

definition ExecutionStatusTimeout :: string where
  "ExecutionStatusTimeout = ''timeout''"

definition isTerminal :: "string \<Rightarrow> bool" where
  "isTerminal s =
     (s = ExecutionStatusSucceeded \<or> s = ExecutionStatusFailed
      \<or> s = ExecutionStatusCancelled \<or> s = ExecutionStatusTimeout)"

text \<open>The SQL condition \<^verbatim>\<open>status IN ('running', 'pending', 'queued')\<close>.\<close>

definition statusNonTerminal :: "string \<Rightarrow> bool" where
  "statusNonTerminal s = (s = ''running'' \<or> s = ''pending'' \<or> s = ''queued'')"

datatype error =
  NilUpdater
  | BeginTransaction
  | ScanExecution
  | UpdaterError string
  | UpdateExecution
  | CommitExecutionUpdate
  | ContextCancelled
  | QueryStaleExecutions
  | ScanStaleExecution
  | IterateStaleExecutions
  | BeginStaleTransaction
  | PrepareStaleUpdate
  | UpdateStaleExecution string
  | RowsAffected string
  | CommitStaleTransaction

text \<open>
  What the database and the webhook tables do is outside the code; every call that can
  return an error gets a switch that says whether it does. The two functions answer the
  webhook queries for an execution id, \<open>None\<close> being an error.
\<close>

record dbEnv =
  beginTxFails :: bool
  scanFails :: bool
  execFails :: bool
  commitFails :: bool
  ctxCancelled :: bool
  queryFails :: bool
  rowsScanFails :: bool
  rowsIterFails :: bool
  prepareFails :: bool
  staleExecFails :: "string \<Rightarrow> bool"
  rowsAffectedFails :: "string \<Rightarrow> bool"
  HasExecutionWebhook :: "string \<Rightarrow> bool option"
  ListExecutionWebhookEvents :: "string \<Rightarrow> ExecutionWebhookEvent list option"

type_synonym executions = "Execution list"

text \<open>
  \<^verbatim>\<open>scanExecution\<close> on the result of a single-row query: no row is
  \<^verbatim>\<open>(nil, nil)\<close>, any other scan error is an error, and a row is copied into a fresh
  struct, whose webhook fields are zero.
\<close>

definition scanExecution :: "dbEnv \<Rightarrow> Execution option \<Rightarrow> error + Execution option" where
  "scanExecution env row =
     (if scanFails env then Inl ScanExecution
      else case row of
             None \<Rightarrow> Inr None
           | Some r \<Rightarrow> Inr (Some (r\<lparr>WebhookRegistered := False, WebhookEvents := []\<rparr>)))"

definition enrichExecutionWebhook :: "dbEnv \<Rightarrow> Execution option \<Rightarrow> bool \<Rightarrow> Execution option" where
  "enrichExecutionWebhook env exec includeEvents =
     (case exec of
        None \<Rightarrow> None
      | Some e \<Rightarrow>
          (case HasExecutionWebhook env (ExecutionID e) of
             None \<Rightarrow> Some e
           | Some registered \<Rightarrow>
               let e1 = e\<lparr>WebhookRegistered := registered\<rparr> in
               if \<not> registered \<or> \<not> includeEvents then Some e1
               else (case ListExecutionWebhookEvents env (ExecutionID e1) of
                       None \<Rightarrow> Some e1
                     | Some events \<Rightarrow> Some (e1\<lparr>WebhookEvents := events\<rparr>))))"

text \<open>The row that \<^verbatim>\<open>SELECT ... WHERE execution_id = ?\<close> hands to \<^verbatim>\<open>QueryRowContext\<close>.\<close>

definition selectExecution :: "string \<Rightarrow> executions \<Rightarrow> Execution option" where
  "selectExecution executionID store = find (\<lambda>r. ExecutionID r = executionID) store"

definition GetExecutionRecord ::
  "dbEnv \<Rightarrow> string \<Rightarrow> executions \<Rightarrow> error + Execution option" where
  "GetExecutionRecord env executionID store =
     (case scanExecution env (selectExecution executionID store) of
        Inl err \<Rightarrow> Inl err
      | Inr None \<Rightarrow> Inr None
      | Inr (Some exec) \<Rightarrow> Inr (enrichExecutionWebhook env (Some exec) True))"

text \<open>
  The \<^verbatim>\<open>UPDATE executions SET ... WHERE execution_id = ?\<close> of
  \<^verbatim>\<open>UpdateExecutionRecord\<close>: seventeen columns are written from \<open>updated\<close>, and the
  key in the condition is \<open>ExecutionID updated\<close>. \<open>execution_id\<close> and \<open>created_at\<close>
  are not written.
\<close>

definition writeColumns :: "Execution \<Rightarrow> Execution \<Rightarrow> Execution" where
  "writeColumns updated row =
     row\<lparr>RunID := RunID updated,
         ParentExecutionID := ParentExecutionID updated,
         AgentNodeID := AgentNodeID updated,
         ReasonerID := ReasonerID updated,
         NodeID := NodeID updated,
         Status := Status updated,
         InputPayload := InputPayload updated,
         ResultPayload := ResultPayload updated,
         ErrorMessage := ErrorMessage updated,
         InputURI := InputURI updated,
         ResultURI := ResultURI updated,
         SessionID := SessionID updated,
         ActorID := ActorID updated,
         StartedAt := StartedAt updated,
         CompletedAt := CompletedAt updated,
         DurationMS := DurationMS updated,
         UpdatedAt := UpdatedAt updated\<rparr>"

definition updateExecution :: "Execution \<Rightarrow> executions \<Rightarrow> executions" where
  "updateExecution updated store =
     map (\<lambda>row. if ExecutionID row = ExecutionID updated then writeColumns updated row else row)
       store"

text \<open>
  \<^verbatim>\<open>UpdateExecutionRecord\<close>. The updater is \<open>None\<close> for a nil function. In Go it is
  handed the pointer \<^verbatim>\<open>current\<close> to the record read under the transaction (nil when
  there is no row), may write through that pointer, and returns a record to persist
  (or nil) and an error. So an updater maps the record read (\<open>None\<close> for nil) to a
  pair: what it wrote through the pointer, as a map on the record behind it (the
  identity if it wrote nothing; a nil pointer has no record to apply it to), and what it
  returned, an error message or the record to persist (\<open>None\<close> for nil). When the
  updater returns nil, the function returns the pointer \<^verbatim>\<open>current\<close>, that is the
  record as the updater left it. \<open>now\<close> is the reading of the clock for \<open>UpdatedAt\<close>.
  The result is the returned pair and the table after the call: every error path leaves
  through the deferred rollback.
\<close>

type_synonym updater =
  "Execution option \<Rightarrow> (Execution \<Rightarrow> Execution) \<times> (string + Execution option)"

definition UpdateExecutionRecord ::
  "dbEnv \<Rightarrow> Time \<Rightarrow> string \<Rightarrow> updater option \<Rightarrow> executions
     \<Rightarrow> (error + Execution option) \<times> executions" where
  "UpdateExecutionRecord env now executionID updater store =
     (case updater of
        None \<Rightarrow> (Inl NilUpdater, store)
      | Some f \<Rightarrow>
          if beginTxFails env then (Inl BeginTransaction, store)
          else
            (case scanExecution env (selectExecution executionID store) of
               Inl err \<Rightarrow> (Inl err, store)
             | Inr current \<Rightarrow>
                 (case f current of
                    (written, result) \<Rightarrow>
                      (case result of
                         Inl msg \<Rightarrow> (Inl (UpdaterError msg), store)
                       | Inr None \<Rightarrow>
                           if commitFails env then (Inl CommitExecutionUpdate, store)
                           else (Inr (enrichExecutionWebhook env (map_option written current)
                                        True),
                                 store)
                       | Inr (Some u) \<Rightarrow>
                           let updated = u\<lparr>UpdatedAt := now\<rparr> in
                           if execFails env then (Inl UpdateExecution, store)
                           else if commitFails env then (Inl CommitExecutionUpdate, store)
                           else (Inr (enrichExecutionWebhook env (Some updated) True),
                                 updateExecution updated store)))))"

subsection \<open>The stale-execution reaper\<close>

text \<open>
  The \<^verbatim>\<open>SELECT execution_id, started_at ... ORDER BY started_at ASC LIMIT ?\<close> of
  \<^verbatim>\<open>MarkStaleExecutions\<close>. Rows with equal \<open>started_at\<close> keep their table order.
\<close>

definition queryStale :: "Time \<Rightarrow> int \<Rightarrow> executions \<Rightarrow> (string \<times> Time) list" where
  "queryStale cutoff limit store =
     map (\<lambda>r. (ExecutionID r, StartedAt r))
       (take (nat limit)
          (sort_key StartedAt
             (filter (\<lambda>r. statusNonTerminal (Status r) \<and> StartedAt r \<le> cutoff) store)))"

text \<open>The duration computed for one stale record, with both of its clamps.\<close>

definition staleDurationMS :: "Time \<Rightarrow> Time \<Rightarrow> int" where
  "staleDurationMS now startedAt =
     (let d = time_Sub now startedAt;
          duration = (if d < 0 then 0 else d);
          ms = Milliseconds duration
      in if ms < 0 then 0 else ms)"

definition timeoutMessage :: string where
  "timeoutMessage = ''execution timed out''"

text \<open>
  The prepared \<^verbatim>\<open>UPDATE ... WHERE execution_id = ? AND status IN (...)\<close>, run for one
  id: the number of rows affected and the table afterwards.
\<close>

definition timeoutRow :: "Time \<Rightarrow> int \<Rightarrow> Execution \<Rightarrow> Execution" where
  "timeoutRow now durationMS row =
     row\<lparr>Status := ExecutionStatusTimeout,
         ErrorMessage := Some timeoutMessage,
         CompletedAt := Some now,
         DurationMS := Some durationMS,
         UpdatedAt := now\<rparr>"

definition execStaleUpdate :: "Time \<Rightarrow> int \<Rightarrow> string \<Rightarrow> executions \<Rightarrow> nat \<times> executions" where
  "execStaleUpdate now durationMS executionID store =
     (length (filter (\<lambda>r. ExecutionID r = executionID \<and> statusNonTerminal (Status r)) store),
      map (\<lambda>r. if ExecutionID r = executionID \<and> statusNonTerminal (Status r)
                then timeoutRow now durationMS r else r) store)"

fun reapLoop ::
  "dbEnv \<Rightarrow> Time \<Rightarrow> (string \<times> Time) list \<Rightarrow> int \<Rightarrow> executions \<Rightarrow> error + (int \<times> executions)" where
  "reapLoop env now [] updated store = Inr (updated, store)"
| "reapLoop env now ((executionID, startedAt) # rest) updated store =
     (if staleExecFails env executionID then Inl (UpdateStaleExecution executionID)
      else
        let (rowsAffected, store') =
              execStaleUpdate now (staleDurationMS now startedAt) executionID store
        in if rowsAffectedFails env executionID then Inl (RowsAffected executionID)
           else reapLoop env now rest (if 0 < rowsAffected then updated + 1 else updated) store')"

text \<open>
  \<^verbatim>\<open>MarkStaleExecutions\<close>. The function reads the clock twice: \<open>cutoffNow\<close> for the
  cutoff and \<open>now\<close> for the update. The \<^verbatim>\<open>SELECT\<close> runs outside the transaction, so
  the table it reads (\<open>selected\<close>) and the table the transaction then works on
  (\<open>store\<close>) are two arguments; with no other writer in between they are the same. The
  result is the returned pair and the table after the call.
\<close>

definition MarkStaleExecutions ::
  "dbEnv \<Rightarrow> Time \<Rightarrow> Time \<Rightarrow> Duration \<Rightarrow> int \<Rightarrow> executions \<Rightarrow> executions
     \<Rightarrow> (error + int) \<times> executions" where
  "MarkStaleExecutions env cutoffNow now staleAfter limit selected store =
     (if limit \<le> 0 then (Inr 0, store)
      else if ctxCancelled env then (Inl ContextCancelled, store)
      else
        let cutoff = time_Add cutoffNow (neg64 staleAfter) in
        if queryFails env then (Inl QueryStaleExecutions, store)
        else
          let stale = queryStale cutoff limit selected in
          if stale \<noteq> [] \<and> rowsScanFails env then (Inl ScanStaleExecution, store)
          else if rowsIterFails env then (Inl IterateStaleExecutions, store)
          else if stale = [] then (Inr 0, store)
          else if beginTxFails env then (Inl BeginStaleTransaction, store)
          else if prepareFails env then (Inl PrepareStaleUpdate, store)
          else
            (case reapLoop env now stale 0 store of
               Inl err \<Rightarrow> (Inl err, store)
             | Inr (updated, store') \<Rightarrow>
                 if commitFails env then (Inl CommitStaleTransaction, store)
                 else (Inr updated, store')))"

text \<open>
  The table a committed sweep leaves behind, row by row: a row still in a non-terminal
  state whose id was selected becomes a timeout row, with the duration computed from the
  \<open>started_at\<close> that was selected for the id; every other row stays.
\<close>

definition reapedStore :: "Time \<Rightarrow> (string \<times> Time) list \<Rightarrow> executions \<Rightarrow> executions" where
  "reapedStore now stale store =
     map (\<lambda>r. if statusNonTerminal (Status r)
               then (case map_of stale (ExecutionID r) of
                       None \<Rightarrow> r
                     | Some startedAt \<Rightarrow> timeoutRow now (staleDurationMS now startedAt) r)
               else r) store"

text \<open>A database and webhook tables that never fail and hold no webhook.\<close>

definition neverFails :: "string \<Rightarrow> bool" where
  "neverFails executionID = False"

definition noWebhook :: "string \<Rightarrow> bool option" where
  "noWebhook executionID = Some False"

definition noWebhookEvents :: "string \<Rightarrow> ExecutionWebhookEvent list option" where
  "noWebhookEvents executionID = Some []"

definition healthyDB :: dbEnv where
  "healthyDB =
     \<lparr>beginTxFails = False, scanFails = False, execFails = False, commitFails = False,
      ctxCancelled = False, queryFails = False, rowsScanFails = False, rowsIterFails = False,
      prepareFails = False, staleExecFails = neverFails, rowsAffectedFails = neverFails,
      HasExecutionWebhook = noWebhook, ListExecutionWebhookEvents = noWebhookEvents\<rparr>"

text \<open>An execution dispatched at 10 s and still running.\<close>

definition runningExecution :: Execution where
  "runningExecution =
     \<lparr>ExecutionID = ''exec-1'', RunID = ''run-1'', ParentExecutionID = None,
      AgentNodeID = ''node-1'', ReasonerID = ''reasoner-a'', NodeID = ''node-1'',
      Status = ''running'', InputPayload = ''input'', ResultPayload = [],
      ErrorMessage = None, InputURI = None, ResultURI = None, SessionID = None,
      ActorID = None, StartedAt = 10 * Second, CompletedAt = None, DurationMS = None,
      CreatedAt = 10 * Second, UpdatedAt = 10 * Second,
      WebhookRegistered = False, WebhookEvents = []\<rparr>"

text \<open>The same execution after it completed at 12 s.\<close>

definition succeededExecution :: Execution where
  "succeededExecution =
     runningExecution\<lparr>Status := ''succeeded'', ResultPayload := ''42'',
       CompletedAt := Some (12 * Second), DurationMS := Some 2000, UpdatedAt := 12 * Second\<rparr>"

text \<open>An execution whose \<open>started_at\<close> lies \<open>10 ^ 19\<close> ns, about 317 years, before
  time 0, and is still running.\<close>

definition ancientExecution :: Execution where
  "ancientExecution = runningExecution\<lparr>StartedAt := - 10000000000000000000\<rparr>"

text \<open>
  Four updaters. The first sets the record it is handed to failed and returns it, or
  returns an error when handed nil; the second returns nil and writes nothing; the
  third returns a record whatever it is given; the fourth sets the record it is handed
  to failed and then returns nil.
\<close>

definition setFailed :: "Execution \<Rightarrow> Execution" where
  "setFailed e = e\<lparr>Status := ''failed'', ErrorMessage := Some ''boom''\<rparr>"

definition markFailed :: updater where
  "markFailed current =
     (case current of
        None \<Rightarrow> (id, Inl ''execution not found'')
      | Some e \<Rightarrow> (setFailed, Inr (Some (setFailed e))))"

definition returnNil :: updater where
  "returnNil current = (id, Inr None)"

definition returnSucceeded :: updater where
  "returnSucceeded current = (id, Inr (Some succeededExecution))"

definition markFailedReturnNil :: updater where
  "markFailedReturnNil current = (setFailed, Inr None)"

section \<open>Health Monitor\<close>

text \<open>
  An entry of the active registry. Its first field is \<^verbatim>\<open>NodeID\<close> in the source; the
  name is taken by the column of the same name in \<open>Execution\<close>.
\<close>

record ActiveAgent =
  ActiveNodeID :: string
  BaseURL :: string
  LastStatus :: HealthStatus
  LastChecked :: Time

type_synonym activeRegistry = "string \<rightharpoonup> ActiveAgent"

text \<open>
  The answer of \<^verbatim>\<open>agentClient.GetAgentStatus\<close>: an error, or a response with its
  \<^verbatim>\<open>Status\<close> string.
\<close>

datatype probe = ProbeError | ProbeStatus string

text \<open>
  Which optional collaborators the monitor was built with, and whether the calls it
  makes to them return without an error.
\<close>

record monitorEnv =
  hasStatusManager :: bool
  hasPresence :: bool
  hasUIService :: bool
  updateAgentStatusOk :: bool
  updateAgentHealthOk :: bool
  getAgentOk :: bool

definition RegisterAgent ::
  "monitorEnv \<Rightarrow> Time \<Rightarrow> string \<Rightarrow> string \<Rightarrow> activeRegistry \<Rightarrow> activeRegistry \<times> effect list" where
  "RegisterAgent env seenAt nodeID baseURL activeAgents =
     (activeAgents(nodeID \<mapsto>
        \<lparr>ActiveNodeID = nodeID, BaseURL = baseURL,
         LastStatus = HealthStatusUnknown, LastChecked = seenAt\<rparr>),
      if hasPresence env then [PresenceTouch nodeID seenAt] else [])"

text \<open>The status the probe is mapped to, at the head of \<^verbatim>\<open>checkAgentHealth\<close>.\<close>

definition probeStatus :: "probe \<Rightarrow> HealthStatus" where
  "probeStatus p =
     (case p of
        ProbeError \<Rightarrow> HealthStatusInactive
      | ProbeStatus s \<Rightarrow> if s = ''running'' then HealthStatusActive else HealthStatusInactive)"

text \<open>
  What \<^verbatim>\<open>checkAgentHealth\<close> sends out once it has decided to report a change: through
  the Status Manager when there is one, through the storage and the event bus
  otherwise. \<open>touchedAt\<close> is the reading of the clock for the presence touch.
\<close>

definition healthCheckUpdate :: "HealthStatus \<Rightarrow> AgentStatusUpdate" where
  "healthCheckUpdate newStatus =
     (let (newState, healthScore) =
            (case newStatus of
               HealthStatusActive \<Rightarrow> (AgentStateActive, 75)
             | HealthStatusInactive \<Rightarrow> (AgentStateInactive, 0)
             | HealthStatusUnknown \<Rightarrow> (AgentStateInactive, 0))
      in \<lparr>State = Some newState, HealthScore = Some healthScore,
          Source = StatusSourceHealthCheck, Reason = ''HTTP health check result''\<rparr>)"

definition reportStatus :: "monitorEnv \<Rightarrow> Time \<Rightarrow> string \<Rightarrow> HealthStatus \<Rightarrow> effect list" where
  "reportStatus env touchedAt nodeID newStatus =
     (if hasStatusManager env then
        UpdateAgentStatus nodeID (healthCheckUpdate newStatus)
        # (if \<not> updateAgentStatusOk env then [UpdateAgentHealth nodeID newStatus]
           else if hasPresence env \<and> newStatus = HealthStatusActive
                then [PresenceTouch nodeID touchedAt] else [])
        @ (if newStatus = HealthStatusActive then [CheckMCPHealth nodeID] else [])
      else
        UpdateAgentHealth nodeID newStatus
        # (if \<not> updateAgentHealthOk env then []
           else GetAgent nodeID
             # (if \<not> getAgentOk env then []
                else (if newStatus = HealthStatusActive
                      then PublishNodeOnline nodeID
                           # (if hasPresence env then [PresenceTouch nodeID touchedAt] else [])
                      else [PublishNodeOffline nodeID])
                     @ [PublishNodeHealthChanged nodeID newStatus]
                     @ (if hasUIService env then [OnNodeStatusChanged nodeID] else [])
                     @ (if newStatus = HealthStatusActive then [CheckMCPHealth nodeID] else []))))"

text \<open>
  \<^verbatim>\<open>checkAgentHealth\<close> for the agent \<open>nodeID\<close>, given the answer of the probe. The
  function reads the clock up to three times: \<open>checkedAt\<close> when it records the check
  under the lock, \<open>laterAt\<close> in the debounce section (to mark a failure, or for
  \<^verbatim>\<open>time.Since\<close>), and \<open>touchedAt\<close> for the presence touch. The debounce section
  reads \<open>LastStatus\<close> and \<open>LastChecked\<close> from the registry entry, which the lines
  before it have already set. The agent client is taken to be present, so that the
  probe has an answer. The result is the registry afterwards and the calls made.
\<close>

definition checkAgentHealth ::
  "monitorEnv \<Rightarrow> Time \<Rightarrow> Time \<Rightarrow> Time \<Rightarrow> probe \<Rightarrow> string \<Rightarrow> activeRegistry
     \<Rightarrow> activeRegistry \<times> effect list" where
  "checkAgentHealth env checkedAt laterAt touchedAt p nodeID activeAgents =
     (case activeAgents nodeID of
        None \<Rightarrow> (activeAgents, [])
      | Some agent \<Rightarrow>
          let newStatus = probeStatus p;
              a1 = agent\<lparr>LastChecked := checkedAt\<rparr>;
              statusChanged = (LastStatus a1 \<noteq> newStatus);
              activeAgent = a1\<lparr>LastStatus := newStatus\<rparr>
          in if statusChanged then
               if newStatus = HealthStatusInactive then
                 (activeAgents(nodeID \<mapsto> activeAgent\<lparr>LastChecked := laterAt\<rparr>),
                  reportStatus env touchedAt nodeID newStatus)
               else if newStatus = HealthStatusActive
                       \<and> LastStatus activeAgent = HealthStatusInactive then
                 if time_Sub laterAt (LastChecked activeAgent) < 30 * Second
                 then (activeAgents(nodeID \<mapsto> activeAgent), [])
                 else (activeAgents(nodeID \<mapsto> activeAgent),
                       reportStatus env touchedAt nodeID newStatus)
               else (activeAgents(nodeID \<mapsto> activeAgent),
                     reportStatus env touchedAt nodeID newStatus)
             else (activeAgents(nodeID \<mapsto> activeAgent), []))"

text \<open>
  A monitor with every collaborator present and answering, watching \<open>node-1\<close>: the
  agent is registered at time 0, answers \<open>running\<close> to the poll at 100 s and fails the
  poll at 110 s.
\<close>

definition fullMonitor :: monitorEnv where
  "fullMonitor =
     \<lparr>hasStatusManager = True, hasPresence = True, hasUIService = True,
      updateAgentStatusOk = True, updateAgentHealthOk = True, getAgentOk = True\<rparr>"

definition registeredAt0 :: activeRegistry where
  "registeredAt0 = fst (RegisterAgent fullMonitor 0 ''node-1'' ''http://node-1'' Map.empty)"

definition upAt100 :: activeRegistry where
  "upAt100 =
     fst (checkAgentHealth fullMonitor (100 * Second) (100 * Second) (100 * Second)
            (ProbeStatus ''running'') ''node-1'' registeredAt0)"

definition downAt110 :: activeRegistry where
  "downAt110 =
     fst (checkAgentHealth fullMonitor (110 * Second) (110 * Second) (110 * Second)
            ProbeError ''node-1'' upAt100)"

section \<open>Dashboard: the median of the duration samples\<close>

text \<open>
  \<^verbatim>\<open>computeMedian\<close> takes \<^verbatim>\<open>[]int64\<close> and returns a \<^verbatim>\<open>float64\<close>. An int64 is
  an integer between \<open>- 2 ^ 63\<close> and \<open>2 ^ 63 - 1\<close>, and a sum of two of them wraps
  around. The conversion \<^verbatim>\<open>float64(n)\<close> rounds \<open>n\<close> to 53 significant bits, to the
  nearest value and to an even mantissa on a tie; the result is again an integer.
  Halving it is exact in binary floating point, so the value returned is a real number
  known exactly.
\<close>

definition wrap64 :: "int \<Rightarrow> int" where
  "wrap64 x = (x + 2 ^ 63) mod 2 ^ 64 - 2 ^ 63"

text \<open>The number of low bits that do not fit into a 53-bit mantissa.\<close>

function excessBits :: "int \<Rightarrow> nat" where
  "excessBits m = (if m < 2 ^ 53 then 0 else Suc (excessBits (m div 2)))"
  by pat_completeness auto
termination
  by (relation "measure (\<lambda>m. nat m)") auto

declare excessBits.simps [simp del]

text \<open>A magnitude rounded to a multiple of \<open>2 ^ k\<close>: to the nearest, and to the even
  multiple when it lies half-way.\<close>

definition roundToEven :: "nat \<Rightarrow> int \<Rightarrow> int" where
  "roundToEven k m =
     (if k = 0 then m
      else
        let q = m div 2 ^ k;
            r = m mod 2 ^ k;
            half = 2 ^ (k - 1)
        in if half < r \<or> (r = half \<and> odd q) then (q + 1) * 2 ^ k else q * 2 ^ k)"

definition float64 :: "int \<Rightarrow> real" where
  "float64 n =
     (let m = \<bar>n\<bar>;
          v = roundToEven (excessBits m) m
      in if n < 0 then - of_int v else of_int v)"

text \<open>
  \<^verbatim>\<open>computeMedian\<close>. \<^verbatim>\<open>sort.Slice\<close> sorts the caller's slice in place; the model
  returns the value only.
\<close>

definition computeMedian :: "int list \<Rightarrow> real" where
  "computeMedian values =
     (if length values = 0 then 0
      else
        let sorted = sort values;
            mid = length sorted div 2
        in if length sorted mod 2 = 1 then float64 (sorted ! mid)
           else float64 (wrap64 (sorted ! (mid - 1) + sorted ! mid)) / 2)"

section \<open>Presence Manager: properties of the sweep\<close>

lemma sweepLeases_keys: "set (map fst (fst (sweepLeases cfg now ls))) \<subseteq> set (map fst ls)"
  by (induction ls) (force split: prod.splits if_splits)+

lemma sweepLeases_distinct:
  "distinct (map fst ls) \<Longrightarrow> distinct (map fst (fst (sweepLeases cfg now ls)))"
proof (induction ls)
  case Nil
  then show ?case by simp
next
  case (Cons a ls)
  obtain k l where a: "a = (k, l)" by (cases a)
  from Cons have d: "distinct (map fst (fst (sweepLeases cfg now ls)))"
    and nk: "k \<notin> set (map fst ls)"
    by (auto simp: a)
  from nk sweepLeases_keys[of cfg now ls]
  have "k \<notin> set (map fst (fst (sweepLeases cfg now ls)))" by blast
  with d show ?case by (auto simp: a split: prod.splits)
qed

lemma sweepLeases_lookup:
  "distinct (map fst ls) \<Longrightarrow>
   map_of (fst (sweepLeases cfg now ls)) n =
     (case map_of ls n of None \<Rightarrow> None | Some l \<Rightarrow> leaseAfterSweep cfg now l)"
proof (induction ls)
  case Nil
  then show ?case by simp
next
  case (Cons a ls)
  obtain k l where a: "a = (k, l)" by (cases a)
  from Cons have IH: "map_of (fst (sweepLeases cfg now ls)) n =
     (case map_of ls n of None \<Rightarrow> None | Some l \<Rightarrow> leaseAfterSweep cfg now l)"
    and nk: "k \<notin> set (map fst ls)" by (auto simp: a)
  from nk have none: "map_of ls k = None" by (simp add: map_of_eq_None_iff)
  show ?case
  proof (cases "k = n")
    case True
    with none IH have "map_of (fst (sweepLeases cfg now ls)) n = None" by simp
    with True show ?thesis
      by (auto simp: a leaseAfterSweep_def split: prod.splits)
  next
    case False
    with IH show ?thesis
      by (auto simp: a split: prod.splits)
  qed
qed

lemma sweepLeases_expired:
  "distinct (map fst ls) \<Longrightarrow>
   filter (\<lambda>m. m = n) (snd (sweepLeases cfg now ls)) =
     (case map_of ls n of None \<Rightarrow> [] | Some l \<Rightarrow> if softExpires cfg now l then [n] else [])"
proof (induction ls)
  case Nil
  then show ?case by simp
next
  case (Cons a ls)
  obtain k l where a: "a = (k, l)" by (cases a)
  from Cons have IH: "filter (\<lambda>m. m = n) (snd (sweepLeases cfg now ls)) =
     (case map_of ls n of None \<Rightarrow> [] | Some l \<Rightarrow> if softExpires cfg now l then [n] else [])"
    and nk: "k \<notin> set (map fst ls)" by (auto simp: a)
  from nk have none: "map_of ls k = None" by (simp add: map_of_eq_None_iff)
  show ?case
  proof (cases "k = n")
    case True
    with none IH have "filter (\<lambda>m. m = n) (snd (sweepLeases cfg now ls)) = []" by simp
    with True show ?thesis
      by (auto simp: a softExpires_def split: prod.splits)
  next
    case False
    with IH show ?thesis
      by (auto simp: a split: prod.splits)
  qed
qed

lemma markInactive_updates:
  "statusManager pm = Some ok \<Longrightarrow>
   filter (isStatusUpdateFor n) (concat (map (markInactive pm) expired)) =
     map (\<lambda>m. UpdateAgentStatus m presenceExpiredUpdate) (filter (\<lambda>m. m = n) expired)"
  by (induction expired) (auto simp: markInactive_def)

lemma checkExpirations_fields:
  "statusManager (fst (checkExpirations now pm)) = statusManager pm"
  "config (fst (checkExpirations now pm)) = config pm"
  "expireCallback (fst (checkExpirations now pm)) = expireCallback pm"
  "leases (fst (checkExpirations now pm)) = fst (sweepLeases (config pm) now (leases pm))"
  by (simp_all add: checkExpirations_def split: prod.splits)

lemma checkExpirations_out:
  "snd (checkExpirations now pm) =
     concat (map (markInactive pm) (snd (sweepLeases (config pm) now (leases pm))))"
  by (simp add: checkExpirations_def split: prod.splits)

lemma checkExpirations_lookup:
  "distinct (map fst (leases pm)) \<Longrightarrow>
   map_of (leases (fst (checkExpirations now pm))) n =
     (case map_of (leases pm) n of None \<Rightarrow> None | Some l \<Rightarrow> leaseAfterSweep (config pm) now l)"
  by (simp add: checkExpirations_fields sweepLeases_lookup)

lemma checkExpirations_updates:
  "distinct (map fst (leases pm)) \<Longrightarrow> statusManager pm = Some ok \<Longrightarrow>
   filter (isStatusUpdateFor n) (snd (checkExpirations now pm)) =
     (case map_of (leases pm) n of
        None \<Rightarrow> []
      | Some l \<Rightarrow> if softExpires (config pm) now l
                  then [UpdateAgentStatus n presenceExpiredUpdate] else [])"
  by (simp add: checkExpirations_out markInactive_updates sweepLeases_expired
      split: option.splits)

lemma runSweeps_split:
  "snd (runSweeps (now # later) pm) =
     snd (checkExpirations now pm) @ snd (runSweeps later (fst (checkExpirations now pm)))"
  "fst (runSweeps (now # later) pm) = fst (runSweeps later (fst (checkExpirations now pm)))"
  by (simp_all split: prod.splits)

lemma runSweeps_updates:
  "distinct (map fst (leases pm)) \<Longrightarrow> statusManager pm = Some ok \<Longrightarrow>
   filter (isStatusUpdateFor n) (snd (runSweeps ts pm)) =
     (case map_of (leases pm) n of
        None \<Rightarrow> []
      | Some l \<Rightarrow>
          if \<not> MarkedOffline l
             \<and> (\<exists>t \<in> set ts. HeartbeatTTL (config pm) \<le> time_Sub t (LastSeen l))
          then [UpdateAgentStatus n presenceExpiredUpdate] else [])"
proof (induction ts arbitrary: pm)
  case Nil
  then show ?case by (simp split: option.splits)
next
  case (Cons now later)
  let ?pm1 = "fst (checkExpirations now pm)"
  have d1: "distinct (map fst (leases ?pm1))"
    using Cons.prems(1) by (simp add: checkExpirations_fields sweepLeases_distinct)
  have s1: "statusManager ?pm1 = Some ok"
    using Cons.prems(2) by (simp add: checkExpirations_fields)
  note IH = Cons.IH[OF d1 s1]
  note out1 = checkExpirations_updates[OF Cons.prems, of n now]
  note l1 = checkExpirations_lookup[OF Cons.prems(1), of now n]
  show ?case
    unfolding runSweeps_split filter_append out1 IH l1
    by (auto simp: checkExpirations_fields leaseAfterSweep_def softExpires_def
        split: option.splits)
qed

lemma runSweeps_absent:
  "distinct (map fst (leases pm)) \<Longrightarrow> map_of (leases pm) n = None \<Longrightarrow>
   map_of (leases (fst (runSweeps ts pm))) n = None"
proof (induction ts arbitrary: pm)
  case Nil
  then show ?case by simp
next
  case (Cons now later)
  let ?pm1 = "fst (checkExpirations now pm)"
  have d1: "distinct (map fst (leases ?pm1))"
    using Cons.prems(1) by (simp add: checkExpirations_fields sweepLeases_distinct)
  have n1: "map_of (leases ?pm1) n = None"
    using Cons.prems by (simp add: checkExpirations_lookup)
  from Cons.IH[OF d1 n1] show ?case by (simp only: runSweeps_split)
qed

lemma runSweeps_marked:
  "distinct (map fst (leases pm)) \<Longrightarrow> map_of (leases pm) n = Some l \<Longrightarrow> MarkedOffline l \<Longrightarrow>
   map_of (leases (fst (runSweeps ts pm))) n = None
   \<or> map_of (leases (fst (runSweeps ts pm))) n = Some l"
proof (induction ts arbitrary: pm)
  case Nil
  then show ?case by simp
next
  case (Cons now later)
  let ?pm1 = "fst (checkExpirations now pm)"
  have d1: "distinct (map fst (leases ?pm1))"
    using Cons.prems(1) by (simp add: checkExpirations_fields sweepLeases_distinct)
  have l1: "map_of (leases ?pm1) n = leaseAfterSweep (config pm) now l"
    using Cons.prems(1,2) by (simp add: checkExpirations_lookup)
  show ?case
  proof (cases "map_of (leases ?pm1) n")
    case None
    from runSweeps_absent[OF d1 None, of later] show ?thesis
      by (simp del: runSweeps.simps add: runSweeps_split)
  next
    case (Some l')
    with l1 Cons.prems(3) have "l' = l"
      by (auto simp: leaseAfterSweep_def split: if_splits)
    with Some Cons.IH[OF d1 _ Cons.prems(3)] show ?thesis
      by (simp del: runSweeps.simps add: runSweeps_split)
  qed
qed

lemma touchLease_lookup:
  "\<exists>l'. map_of (touchLease n seenAt ls) n = Some l' \<and> \<not> MarkedOffline l' \<and> LastSeen l' = seenAt"
  by (induction ls) auto

text \<open>
  Claim C4. Touching a lease sets \<open>LastSeen\<close> and clears \<open>MarkedOffline\<close>. With a
  Status Manager configured, a lease that is not yet marked offline and is swept at an
  instant at least \<open>HeartbeatTTL\<close> after its last touch is marked offline by that sweep,
  which sends one update for the node, with state \<open>inactive\<close>, health score 0 and
  source \<open>presence\<close>; over any run of sweeps with no touch in between, the node gets
  exactly one such update if some sweep comes at least \<open>HeartbeatTTL\<close> after the last
  touch, and none otherwise. A lease that is already
  marked offline gets no update from any run of sweeps, and the sweeps leave it as it is
  or delete it: they never clear the flag.
\<close>

theorem presence_soft_expiry_exactly_once:
  assumes "distinct (map fst (leases pm))"
    and "statusManager pm = Some ok"
    and "map_of (leases pm) n = Some l"
  shows "(\<exists>l'. map_of (leases (Touch n seenAt pm)) n = Some l'
              \<and> \<not> MarkedOffline l' \<and> LastSeen l' = seenAt)
    \<and> (\<not> MarkedOffline l \<and> HeartbeatTTL (config pm) \<le> time_Sub now (LastSeen l) \<longrightarrow>
          map_of (leases (fst (checkExpirations now pm))) n
            = Some (l\<lparr>MarkedOffline := True, LastExpired := now\<rparr>)
          \<and> filter (isStatusUpdateFor n) (snd (checkExpirations now pm))
            = [UpdateAgentStatus n
                 \<lparr>State = Some AgentStateInactive, HealthScore = Some 0,
                   Source = StatusSourcePresence, Reason = ''presence lease expired''\<rparr>])
    \<and> (\<not> MarkedOffline l \<longrightarrow>
          filter (isStatusUpdateFor n) (snd (runSweeps ts pm))
            = (if \<exists>t \<in> set ts. HeartbeatTTL (config pm) \<le> time_Sub t (LastSeen l)
               then [UpdateAgentStatus n
                 \<lparr>State = Some AgentStateInactive, HealthScore = Some 0,
                   Source = StatusSourcePresence, Reason = ''presence lease expired''\<rparr>] else []))
    \<and> (MarkedOffline l \<longrightarrow>
          filter (isStatusUpdateFor n) (snd (runSweeps ts pm)) = []
          \<and> (map_of (leases (fst (runSweeps ts pm))) n = None
             \<or> map_of (leases (fst (runSweeps ts pm))) n = Some l))"
proof (intro conjI impI)
  show "\<exists>l'. map_of (leases (Touch n seenAt pm)) n = Some l'
              \<and> \<not> MarkedOffline l' \<and> LastSeen l' = seenAt"
    using touchLease_lookup[of n seenAt "leases pm"] by (simp add: Touch_def)
next
  assume a: "\<not> MarkedOffline l \<and> HeartbeatTTL (config pm) \<le> time_Sub now (LastSeen l)"
  show "map_of (leases (fst (checkExpirations now pm))) n
          = Some (l\<lparr>MarkedOffline := True, LastExpired := now\<rparr>)"
    using a assms(3) checkExpirations_lookup[OF assms(1), of now n]
    by (simp add: leaseAfterSweep_def)
  show "filter (isStatusUpdateFor n) (snd (checkExpirations now pm))
          = [UpdateAgentStatus n
                 \<lparr>State = Some AgentStateInactive, HealthScore = Some 0,
                   Source = StatusSourcePresence, Reason = ''presence lease expired''\<rparr>]"
    using a assms(3) checkExpirations_updates[OF assms(1,2), of n now]
    by (simp add: softExpires_def presenceExpiredUpdate_def)
next
  assume "\<not> MarkedOffline l"
  then show "filter (isStatusUpdateFor n) (snd (runSweeps ts pm))
      = (if \<exists>t \<in> set ts. HeartbeatTTL (config pm) \<le> time_Sub t (LastSeen l)
         then [UpdateAgentStatus n
                 \<lparr>State = Some AgentStateInactive, HealthScore = Some 0,
                   Source = StatusSourcePresence, Reason = ''presence lease expired''\<rparr>] else [])"
    using assms(3) runSweeps_updates[OF assms(1,2), of n ts]
    by (simp add: presenceExpiredUpdate_def)
next
  assume m: "MarkedOffline l"
  then show "filter (isStatusUpdateFor n) (snd (runSweeps ts pm)) = []"
    using assms(3) runSweeps_updates[OF assms(1,2), of n ts] by simp
  show "map_of (leases (fst (runSweeps ts pm))) n = None
        \<or> map_of (leases (fst (runSweeps ts pm))) n = Some l"
    using runSweeps_marked[OF assms(1,3) m] .
qed

theorem presence_soft_expiry_exactly_once_witness:
  "distinct (map fst (leases defaultPresence))
   \<and> statusManager defaultPresence = Some acceptAll
   \<and> map_of (leases defaultPresence) ''node-1''
       = Some \<lparr>LastSeen = 0, LastExpired = zeroTime, MarkedOffline = False\<rparr>
   \<and> map_of (leases (fst (checkExpirations (15 * Second) defaultPresence))) ''node-1''
       = Some \<lparr>LastSeen = 0, LastExpired = 15 * Second, MarkedOffline = True\<rparr>
   \<and> filter (isStatusUpdateFor ''node-1'') (snd (checkExpirations (15 * Second) defaultPresence))
       = [UpdateAgentStatus ''node-1''
                 \<lparr>State = Some AgentStateInactive, HealthScore = Some 0,
                   Source = StatusSourcePresence, Reason = ''presence lease expired''\<rparr>]
   \<and> filter (isStatusUpdateFor ''node-1'')
        (snd (runSweeps [5 * Second, 10 * Second, 15 * Second, 20 * Second, 300 * Second]
               defaultPresence))
       = [UpdateAgentStatus ''node-1''
                 \<lparr>State = Some AgentStateInactive, HealthScore = Some 0,
                   Source = StatusSourcePresence, Reason = ''presence lease expired''\<rparr>]"
proof -
  let ?l = "\<lparr>LastSeen = 0, LastExpired = zeroTime, MarkedOffline = False\<rparr>"
  let ?ts = "[5 * Second, 10 * Second, 15 * Second, 20 * Second, 300 * Second]"
  have h1: "distinct (map fst (leases defaultPresence))"
    by code_simp
  have h2: "statusManager defaultPresence = Some acceptAll"
    by (simp add: defaultPresence_def Touch_def NewPresenceManager_def Let_def)
  have h3: "map_of (leases defaultPresence) ''node-1'' = Some ?l"
    by code_simp
  have e1: "HeartbeatTTL (config defaultPresence) \<le> time_Sub (15 * Second) (LastSeen ?l)"
    by code_simp
  have e2: "\<exists>t \<in> set ?ts. HeartbeatTTL (config defaultPresence) \<le> time_Sub t (LastSeen ?l)"
    by code_simp
  from presence_soft_expiry_exactly_once[OF h1 h2 h3, of 0 "15 * Second" ?ts] e1 e2 h1 h2 h3
  show ?thesis by simp
qed

text \<open>
  Claim C6, as the code has it. A lease that is already marked offline is deleted by a
  sweep exactly when the hard-evict TTL is positive and the sweep comes at least
  \<open>HardEvictTTL\<close> (and at least \<open>HeartbeatTTL\<close>) after the lease's last touch
  \<open>LastSeen\<close>: the delay is counted from the last touch, not from the soft expiry
  \<open>LastExpired\<close>. A deletion therefore never comes earlier than \<open>HardEvictTTL\<close> after
  the last touch, and a sweep that does not delete the lease leaves it unchanged.
\<close>

theorem hard_evict_counts_from_last_touch:
  assumes "distinct (map fst (leases pm))"
    and "map_of (leases pm) n = Some l"
    and "MarkedOffline l"
  shows "(map_of (leases (fst (checkExpirations now pm))) n = None \<longleftrightarrow>
            HeartbeatTTL (config pm) \<le> time_Sub now (LastSeen l)
            \<and> 0 < HardEvictTTL (config pm)
            \<and> HardEvictTTL (config pm) \<le> time_Sub now (LastSeen l))
    \<and> (map_of (leases (fst (checkExpirations now pm))) n = None \<longrightarrow>
          HardEvictTTL (config pm) \<le> now - LastSeen l)
    \<and> (map_of (leases (fst (checkExpirations now pm))) n \<noteq> None \<longrightarrow>
          map_of (leases (fst (checkExpirations now pm))) n = Some l)"
proof -
  have look: "map_of (leases (fst (checkExpirations now pm))) n = leaseAfterSweep (config pm) now l"
    using assms(1,2) by (simp add: checkExpirations_lookup)
  have sat: "0 < time_Sub now (LastSeen l) \<Longrightarrow> time_Sub now (LastSeen l) \<le> now - LastSeen l"
    by (simp add: time_Sub_def minDuration_def split: if_splits)
  show ?thesis
    unfolding look using assms(3) sat
    by (auto simp: leaseAfterSweep_def)
qed

theorem hard_evict_counts_from_last_touch_witness:
  "distinct (map fst (leases (fst (checkExpirations (15 * Second) defaultPresence))))
   \<and> map_of (leases (fst (checkExpirations (15 * Second) defaultPresence))) ''node-1''
       = Some \<lparr>LastSeen = 0, LastExpired = 15 * Second, MarkedOffline = True\<rparr>
   \<and> MarkedOffline \<lparr>LastSeen = 0, LastExpired = 15 * Second, MarkedOffline = True\<rparr>
   \<and> map_of (leases (fst (checkExpirations (299 * Second)
                             (fst (checkExpirations (15 * Second) defaultPresence))))) ''node-1''
       = Some \<lparr>LastSeen = 0, LastExpired = 15 * Second, MarkedOffline = True\<rparr>
   \<and> map_of (leases (fst (checkExpirations (300 * Second)
                             (fst (checkExpirations (15 * Second) defaultPresence))))) ''node-1''
       = None"
proof -
  let ?pm = "fst (checkExpirations (15 * Second) defaultPresence)"
  let ?l = "\<lparr>LastSeen = 0, LastExpired = 15 * Second, MarkedOffline = True\<rparr>"
  have h1: "distinct (map fst (leases ?pm))"
    by code_simp
  have h2: "map_of (leases ?pm) ''node-1'' = Some ?l"
    by code_simp
  have h3: "MarkedOffline ?l"
    by simp
  have cfg: "HeartbeatTTL (config ?pm) = 15 * Second" "HardEvictTTL (config ?pm) = 300 * Second"
    by code_simp+
  have t1: "time_Sub (299 * Second) (LastSeen ?l) = 299 * Second"
    and t2: "time_Sub (300 * Second) (LastSeen ?l) = 300 * Second"
    by code_simp+
  from hard_evict_counts_from_last_touch[OF h1 h2 h3, of "299 * Second"]
    hard_evict_counts_from_last_touch[OF h1 h2 h3, of "300 * Second"]
    h1 h2 cfg t1 t2
  show ?thesis by (simp add: Second_def)
qed

text \<open>
  The default configuration, one lease touched at time 0: the sweep at 15 s marks it
  offline, and the sweep at 300 s deletes it, 285 s after the soft expiry, which is less
  than the hard-evict TTL of 300 s.
\<close>

theorem hard_evict_before_ttl_past_soft_expiry:
  "map_of (leases (fst (checkExpirations (15 * Second) defaultPresence))) ''node-1''
     = Some \<lparr>LastSeen = 0, LastExpired = 15 * Second, MarkedOffline = True\<rparr>
   \<and> map_of (leases (fst (checkExpirations (300 * Second)
                             (fst (checkExpirations (15 * Second) defaultPresence))))) ''node-1''
     = None
   \<and> time_Sub (300 * Second) (15 * Second)
     < HardEvictTTL (config (fst (checkExpirations (15 * Second) defaultPresence)))"
  by code_simp

section \<open>Stale-execution reaper: properties\<close>

lemma timeoutRow_simps:
  "ExecutionID (timeoutRow now d r) = ExecutionID r"
  "statusNonTerminal (Status (timeoutRow now d r)) = False"
  by (simp_all add: timeoutRow_def statusNonTerminal_def ExecutionStatusTimeout_def)

lemma reapedStore_Cons:
  "reapedStore now rest (snd (execStaleUpdate now (staleDurationMS now st) ident S))
     = reapedStore now ((ident, st) # rest) S"
  by (simp add: reapedStore_def execStaleUpdate_def timeoutRow_simps)

lemma reapedStore_Nil: "reapedStore now [] S = S"
  by (simp add: reapedStore_def cong: if_cong)

lemma reapLoop_result:
  "reapLoop env now stale u S = Inr (u', S') \<Longrightarrow>
     S' = reapedStore now stale S \<and> u \<le> u' \<and> u' \<le> u + int (length stale)"
proof (induction stale arbitrary: u S)
  case Nil
  then show ?case by (simp add: reapedStore_Nil)
next
  case (Cons a stale)
  obtain ident st where a: "a = (ident, st)" by (cases a)
  let ?S1 = "snd (execStaleUpdate now (staleDurationMS now st) ident S)"
  let ?k = "fst (execStaleUpdate now (staleDurationMS now st) ident S)"
  from Cons.prems have run: "reapLoop env now stale (if 0 < ?k then u + 1 else u) ?S1 = Inr (u', S')"
    by (simp add: a split: if_splits prod.splits)
  from Cons.IH[OF run] show ?case
    by (auto simp: a reapedStore_Cons split: if_splits)
qed

lemma reapLoop_succeeds:
  "(\<And>i. \<not> staleExecFails env i) \<Longrightarrow> (\<And>i. \<not> rowsAffectedFails env i) \<Longrightarrow>
   \<exists>u'. reapLoop env now stale u S = Inr (u', reapedStore now stale S)"
proof (induction stale arbitrary: u S)
  case Nil
  then show ?case by (simp add: reapedStore_Nil)
next
  case (Cons a stale)
  obtain ident st where a: "a = (ident, st)" by (cases a)
  let ?S1 = "snd (execStaleUpdate now (staleDurationMS now st) ident S)"
  let ?k = "fst (execStaleUpdate now (staleDurationMS now st) ident S)"
  from Cons.IH[OF Cons.prems, of "if 0 < ?k then u + 1 else u" ?S1]
  obtain u' where "reapLoop env now stale (if 0 < ?k then u + 1 else u) ?S1 = Inr (u', reapedStore now stale ?S1)"
    by blast
  then show ?case using Cons.prems
    by (auto simp: a reapedStore_Cons split: prod.splits)
qed

lemma MarkStale_store:
  "snd (MarkStaleExecutions env cutoffNow now staleAfter limit selected store) = store
   \<or> snd (MarkStaleExecutions env cutoffNow now staleAfter limit selected store)
      = reapedStore now (queryStale (time_Add cutoffNow (neg64 staleAfter)) limit selected) store"
  by (auto simp: MarkStaleExecutions_def Let_def dest: reapLoop_result split: sum.splits prod.splits)

lemma reapedStore_length: "length (reapedStore now stale S) = length S"
  by (simp add: reapedStore_def)

lemma reapedStore_keeps:
  "i < length S \<Longrightarrow> \<not> statusNonTerminal (Status (S ! i)) \<Longrightarrow> reapedStore now stale S ! i = S ! i"
  by (simp add: reapedStore_def)

lemma isTerminal_not_nonTerminal: "isTerminal s \<Longrightarrow> \<not> statusNonTerminal s"
  by (auto simp: isTerminal_def statusNonTerminal_def ExecutionStatusSucceeded_def
      ExecutionStatusFailed_def ExecutionStatusCancelled_def ExecutionStatusTimeout_def)


lemma queryStale_length: "length (queryStale cutoff limit S) \<le> nat limit"
  by (simp add: queryStale_def)

lemma queryStale_member:
  "(ident, st) \<in> set (queryStale cutoff limit S) \<Longrightarrow>
   \<exists>r \<in> set S. ExecutionID r = ident \<and> StartedAt r = st
              \<and> statusNonTerminal (Status r) \<and> StartedAt r \<le> cutoff"
proof -
  assume "(ident, st) \<in> set (queryStale cutoff limit S)"
  then obtain r where r: "r \<in> set (take (nat limit) (sort_key StartedAt
        (filter (\<lambda>r. statusNonTerminal (Status r) \<and> StartedAt r \<le> cutoff) S)))"
    and e: "ExecutionID r = ident" "StartedAt r = st"
    by (auto simp: queryStale_def)
  from r have "r \<in> set (sort_key StartedAt
        (filter (\<lambda>r. statusNonTerminal (Status r) \<and> StartedAt r \<le> cutoff) S))"
    by (rule in_set_takeD)
  then have "r \<in> set S \<and> statusNonTerminal (Status r) \<and> StartedAt r \<le> cutoff"
    by simp
  with e show ?thesis by blast
qed

lemma queryStale_distinct:
  assumes "distinct (map ExecutionID S)"
  shows "distinct (map fst (queryStale cutoff limit S))"
proof -
  let ?F = "filter (\<lambda>r. statusNonTerminal (Status r) \<and> StartedAt r \<le> cutoff) S"
  have "distinct (map ExecutionID ?F)"
    using assms by (rule distinct_map_filter)
  then have "distinct (map ExecutionID (sort_key StartedAt ?F))"
    by (simp add: distinct_map)
  then have "distinct (map ExecutionID (take (nat limit) (sort_key StartedAt ?F)))"
    unfolding take_map[symmetric] by (rule distinct_take)
  then show ?thesis
    by (simp add: queryStale_def comp_def)
qed

lemma staleDurationMS_eq: "staleDurationMS now st = max 0 (time_Sub now st) div 1000000"
  by (simp add: staleDurationMS_def Milliseconds_def Let_def max_def pos_imp_zdiv_neg_iff)

lemma staleDurationMS_exact:
  "staleDurationMS now st =
     (if 9223372036854775807 < now - st then 9223372036854
      else max 0 (now - st) div 1000000)"
  unfolding staleDurationMS_eq
  by (simp add: time_Sub_def minDuration_def maxDuration_def max_def)

lemma reapedStore_row:
  assumes d: "distinct (map ExecutionID S)" and i: "i < length S"
  shows "reapedStore now (queryStale cutoff limit S) S ! i =
     (if (ExecutionID (S ! i), StartedAt (S ! i)) \<in> set (queryStale cutoff limit S)
      then timeoutRow now (staleDurationMS now (StartedAt (S ! i))) (S ! i)
      else S ! i)"
proof -
  let ?r = "S ! i"
  let ?Q = "queryStale cutoff limit S"
  have rin: "?r \<in> set S" using i by simp
  have inj: "inj_on ExecutionID (set S)" using d by (simp add: distinct_map)
  have dq: "distinct (map fst ?Q)" using d by (rule queryStale_distinct)
  have key: "\<And>st. (ExecutionID ?r, st) \<in> set ?Q \<Longrightarrow>
      st = StartedAt ?r \<and> statusNonTerminal (Status ?r)"
  proof -
    fix st assume "(ExecutionID ?r, st) \<in> set ?Q"
    from queryStale_member[OF this] obtain r' where r': "r' \<in> set S"
      "ExecutionID r' = ExecutionID ?r" "StartedAt r' = st" "statusNonTerminal (Status r')"
      by blast
    from inj r'(1,2) rin have "r' = ?r" by (auto dest: inj_onD)
    with r' show "st = StartedAt ?r \<and> statusNonTerminal (Status ?r)" by simp
  qed
  show ?thesis
  proof (cases "(ExecutionID ?r, StartedAt ?r) \<in> set ?Q")
    case True
    with dq have "map_of ?Q (ExecutionID ?r) = Some (StartedAt ?r)" by simp
    moreover from key[OF True] have "statusNonTerminal (Status ?r)" by simp
    ultimately show ?thesis using True i by (simp add: reapedStore_def)
  next
    case False
    have "map_of ?Q (ExecutionID ?r) = None"
    proof (cases "map_of ?Q (ExecutionID ?r)")
      case None then show ?thesis .
    next
      case (Some st)
      then have m: "(ExecutionID ?r, st) \<in> set ?Q" by (rule map_of_SomeD)
      from key[OF m] m False show ?thesis by simp
    qed
    with False i show ?thesis by (simp add: reapedStore_def)
  qed
qed


lemma queryStale_nonpositive: "limit \<le> 0 \<Longrightarrow> queryStale cutoff limit S = []"
  by (simp add: queryStale_def)

lemma MarkStale_result:
  assumes "MarkStaleExecutions env cutoffNow now staleAfter limit selected store = (res, store')"
  shows "case res of
           Inl err \<Rightarrow> store' = store
         | Inr n \<Rightarrow>
             store' = reapedStore now
                        (queryStale (time_Add cutoffNow (neg64 staleAfter)) limit selected) store
             \<and> 0 \<le> n
             \<and> n \<le> int (length (queryStale (time_Add cutoffNow (neg64 staleAfter)) limit selected))"
proof (cases "limit \<le> 0")
  case True
  with assms show ?thesis
    by (auto simp: MarkStaleExecutions_def queryStale_nonpositive reapedStore_Nil)
next
  case False
  let ?Q = "queryStale (time_Add cutoffNow (neg64 staleAfter)) limit selected"
  show ?thesis
  proof (cases "reapLoop env now ?Q 0 store")
    case (Inl err)
    with assms False show ?thesis
      by (auto simp: MarkStaleExecutions_def Let_def reapedStore_Nil split: if_splits)
  next
    case (Inr p)
    obtain u S where p: "p = (u, S)" by (cases p)
    from reapLoop_result[OF Inr[unfolded p]]
    have "S = reapedStore now ?Q store" "0 \<le> u" "u \<le> int (length ?Q)" by simp_all
    with assms False Inr p show ?thesis
      by (auto simp: MarkStaleExecutions_def Let_def reapedStore_Nil split: if_splits)
  qed
qed

lemma MarkStale_succeeds:
  assumes "\<not> ctxCancelled env" "\<not> queryFails env" "\<not> rowsScanFails env" "\<not> rowsIterFails env"
    "\<not> beginTxFails env" "\<not> prepareFails env" "\<not> commitFails env"
    "\<And>i. \<not> staleExecFails env i" "\<And>i. \<not> rowsAffectedFails env i"
  shows "\<exists>n. fst (MarkStaleExecutions env cutoffNow now staleAfter limit selected store) = Inr n"
proof -
  let ?Q = "queryStale (time_Add cutoffNow (neg64 staleAfter)) limit selected"
  from reapLoop_succeeds[of env now ?Q 0 store] assms(8,9)
  obtain u where "reapLoop env now ?Q 0 store = Inr (u, reapedStore now ?Q store)"
    by blast
  with assms(1-7) show ?thesis
    by (simp add: MarkStaleExecutions_def Let_def)
qed

text \<open>
  Claim C1. Whatever the sweep selected, and whatever the database does, the table after
  \<^verbatim>\<open>MarkStaleExecutions\<close> has the same rows in the same places, and every row that
  is not running, pending or queued when the update transaction runs is left exactly
  as it was; in particular every row whose status is succeeded, failed, cancelled or
  timeout. So a row that completed after it was selected is not overwritten.
\<close>

theorem reaper_never_overwrites_terminal:
  "length (snd (MarkStaleExecutions env cutoffNow now staleAfter limit selected store))
     = length store
   \<and> (\<forall>i < length store. \<not> statusNonTerminal (Status (store ! i)) \<longrightarrow>
         snd (MarkStaleExecutions env cutoffNow now staleAfter limit selected store) ! i
           = store ! i)
   \<and> (\<forall>i < length store. isTerminal (Status (store ! i)) \<longrightarrow>
         snd (MarkStaleExecutions env cutoffNow now staleAfter limit selected store) ! i
           = store ! i)"
proof -
  let ?R = "MarkStaleExecutions env cutoffNow now staleAfter limit selected store"
  let ?Q = "queryStale (time_Add cutoffNow (neg64 staleAfter)) limit selected"
  have "snd ?R = store \<or> snd ?R = reapedStore now ?Q store"
    by (rule MarkStale_store)
  then show ?thesis
  proof
    assume "snd ?R = store"
    then show ?thesis by simp
  next
    assume "snd ?R = reapedStore now ?Q store"
    then show ?thesis
      by (simp add: reapedStore_length reapedStore_keeps isTerminal_not_nonTerminal)
  qed
qed

theorem reaper_never_overwrites_terminal_witness:
  "(0::nat) < length [succeededExecution]
   \<and> isTerminal (Status ([succeededExecution] ! 0))
   \<and> MarkStaleExecutions healthyDB (90 * Second) (90 * Second) (60 * Second) 100
        [runningExecution] [succeededExecution]
       = (Inr 0, [succeededExecution])"
proof -
  have h: "(0::nat) < length [succeededExecution]"
    and t: "isTerminal (Status ([succeededExecution] ! 0))"
    by code_simp+
  have r: "fst (MarkStaleExecutions healthyDB (90 * Second) (90 * Second) (60 * Second) 100
        [runningExecution] [succeededExecution]) = Inr 0"
    by code_simp
  from reaper_never_overwrites_terminal[of healthyDB "90 * Second" "90 * Second" "60 * Second"
      100 "[runningExecution]" "[succeededExecution]"] h t
  have "snd (MarkStaleExecutions healthyDB (90 * Second) (90 * Second) (60 * Second) 100
        [runningExecution] [succeededExecution]) = [succeededExecution]"
    by (simp add: list_eq_iff_nth_eq)
  with r h t show ?thesis by (simp add: prod_eq_iff)
qed

text \<open>
  Claim C7, as the code has it. The records a sweep selects are at most \<open>limit\<close> many, and each is the id
  and \<open>started_at\<close> of a row that is running, pending or queued and whose
  \<open>started_at\<close> is not later than the cutoff, which is the stale threshold before the
  time of the sweep. The sweep is one transaction: when it returns an error the table is
  unchanged, and when it returns a count every selected row that is still in a
  non-terminal state is a timeout row and every other row is unchanged. A timeout row
  has status \<open>timeout\<close>, the error message \<open>execution timed out\<close>, \<open>completed_at = now\<close>
  and as its duration the whole milliseconds of \<open>max 0 (now - started_at)\<close>, unless
  \<open>now - started_at\<close> is more than the largest Duration, \<open>2 ^ 63 - 1\<close> ns: then the
  duration is that of the largest Duration, 9223372036854 ms. With a database that
  does not fail, the sweep returns a count. When the table selected from is the table
  updated and ids are unique, the rows rewritten are exactly the selected ones.
\<close>

theorem reaper_sweep_selects_and_times_out:
  assumes "MarkStaleExecutions env cutoffNow now staleAfter limit selected store = (res, store')"
    and "stale = queryStale (time_Add cutoffNow (neg64 staleAfter)) limit selected"
  shows "length stale \<le> nat limit
    \<and> (\<forall>(executionID, startedAt) \<in> set stale.
          \<exists>r \<in> set selected. ExecutionID r = executionID \<and> StartedAt r = startedAt
             \<and> (Status r = ''running'' \<or> Status r = ''pending'' \<or> Status r = ''queued'')
             \<and> StartedAt r \<le> time_Add cutoffNow (neg64 staleAfter))
    \<and> (staleAfter \<noteq> minDuration \<longrightarrow>
          time_Add cutoffNow (neg64 staleAfter) = cutoffNow - staleAfter)
    \<and> (case res of
          Inl err \<Rightarrow> store' = store
        | Inr n \<Rightarrow> store' = reapedStore now stale store \<and> 0 \<le> n \<and> n \<le> int (length stale))
    \<and> (\<forall>r startedAt.
          timeoutRow now (staleDurationMS now startedAt) r
            = r\<lparr>Status := ''timeout'',
                 ErrorMessage := Some ''execution timed out'',
                 CompletedAt := Some now,
                 DurationMS :=
                   Some (if 9223372036854775807 < now - startedAt then 9223372036854
                         else max 0 (now - startedAt) div 1000000),
                 UpdatedAt := now\<rparr>)
    \<and> (\<not> ctxCancelled env \<and> \<not> queryFails env \<and> \<not> rowsScanFails env \<and> \<not> rowsIterFails env
        \<and> \<not> beginTxFails env \<and> \<not> prepareFails env \<and> \<not> commitFails env
        \<and> (\<forall>i. \<not> staleExecFails env i) \<and> (\<forall>i. \<not> rowsAffectedFails env i)
        \<longrightarrow> (\<exists>n. res = Inr n))
    \<and> (selected = store \<and> distinct (map ExecutionID store) \<and> (\<exists>n. res = Inr n) \<longrightarrow>
          (\<forall>i < length store.
             store' ! i =
               (if (ExecutionID (store ! i), StartedAt (store ! i)) \<in> set stale
                then timeoutRow now (staleDurationMS now (StartedAt (store ! i))) (store ! i)
                else store ! i)))"
proof (intro conjI)
  show "length stale \<le> nat limit"
    unfolding assms(2) by (rule queryStale_length)
  show "\<forall>(executionID, startedAt) \<in> set stale.
          \<exists>r \<in> set selected. ExecutionID r = executionID \<and> StartedAt r = startedAt
             \<and> (Status r = ''running'' \<or> Status r = ''pending'' \<or> Status r = ''queued'')
             \<and> StartedAt r \<le> time_Add cutoffNow (neg64 staleAfter)"
    unfolding assms(2)
    using queryStale_member[of _ _ "time_Add cutoffNow (neg64 staleAfter)" limit selected]
    by (fastforce simp: statusNonTerminal_def)
  show "staleAfter \<noteq> minDuration \<longrightarrow>
          time_Add cutoffNow (neg64 staleAfter) = cutoffNow - staleAfter"
    by (simp add: time_Add_def neg64_def)
  show res: "case res of
          Inl err \<Rightarrow> store' = store
        | Inr n \<Rightarrow> store' = reapedStore now stale store \<and> 0 \<le> n \<and> n \<le> int (length stale)"
    unfolding assms(2) using assms(1) by (rule MarkStale_result)
  show "\<forall>r startedAt.
          timeoutRow now (staleDurationMS now startedAt) r
            = r\<lparr>Status := ''timeout'',
                 ErrorMessage := Some ''execution timed out'',
                 CompletedAt := Some now,
                 DurationMS :=
                   Some (if 9223372036854775807 < now - startedAt then 9223372036854
                         else max 0 (now - startedAt) div 1000000),
                 UpdatedAt := now\<rparr>"
    by (simp add: timeoutRow_def staleDurationMS_exact ExecutionStatusTimeout_def
        timeoutMessage_def)
  show "\<not> ctxCancelled env \<and> \<not> queryFails env \<and> \<not> rowsScanFails env \<and> \<not> rowsIterFails env
        \<and> \<not> beginTxFails env \<and> \<not> prepareFails env \<and> \<not> commitFails env
        \<and> (\<forall>i. \<not> staleExecFails env i) \<and> (\<forall>i. \<not> rowsAffectedFails env i)
        \<longrightarrow> (\<exists>n. res = Inr n)"
    using MarkStale_succeeds[of env cutoffNow now staleAfter limit selected store] assms(1)
    by auto
  show "selected = store \<and> distinct (map ExecutionID store) \<and> (\<exists>n. res = Inr n) \<longrightarrow>
          (\<forall>i < length store.
             store' ! i =
               (if (ExecutionID (store ! i), StartedAt (store ! i)) \<in> set stale
                then timeoutRow now (staleDurationMS now (StartedAt (store ! i))) (store ! i)
                else store ! i))"
  proof (intro impI allI, elim conjE exE)
    fix i n
    assume sel: "selected = store" and d: "distinct (map ExecutionID store)"
      and n: "res = Inr n" and i: "i < length store"
    from res n have "store' = reapedStore now stale store" by simp
    with reapedStore_row[OF d i, of now "time_Add cutoffNow (neg64 staleAfter)" limit]
    show "store' ! i =
               (if (ExecutionID (store ! i), StartedAt (store ! i)) \<in> set stale
                then timeoutRow now (staleDurationMS now (StartedAt (store ! i))) (store ! i)
                else store ! i)"
      by (simp add: assms(2) sel)
  qed
qed

theorem reaper_sweep_selects_and_times_out_witness:
  "MarkStaleExecutions healthyDB (100 * Second) (100 * Second) (60 * Second) 100
       [runningExecution] [runningExecution]
     = (Inr 1, [runningExecution\<lparr>Status := ''timeout'',
                  ErrorMessage := Some ''execution timed out'',
                  CompletedAt := Some (100 * Second),
                  DurationMS := Some 90000,
                  UpdatedAt := 100 * Second\<rparr>])
   \<and> [(''exec-1'', 10 * Second)]
       = queryStale (time_Add (100 * Second) (neg64 (60 * Second))) 100 [runningExecution]
   \<and> 60 * Second \<noteq> minDuration
   \<and> distinct (map ExecutionID [runningExecution])
   \<and> length [(''exec-1'', 10 * Second)] \<le> nat 100
   \<and> time_Add (100 * Second) (neg64 (60 * Second)) = 100 * Second - 60 * Second
   \<and> timeoutRow (100 * Second) (staleDurationMS (100 * Second) (10 * Second)) runningExecution
       = runningExecution\<lparr>Status := ''timeout'',
                  ErrorMessage := Some ''execution timed out'',
                  CompletedAt := Some (100 * Second),
                  DurationMS := Some 90000,
                  UpdatedAt := 100 * Second\<rparr>"
proof -
  let ?timedOut = "runningExecution\<lparr>Status := ''timeout'',
                  ErrorMessage := Some ''execution timed out'',
                  CompletedAt := Some (100 * Second),
                  DurationMS := Some 90000,
                  UpdatedAt := 100 * Second\<rparr>"
  have h1: "MarkStaleExecutions healthyDB (100 * Second) (100 * Second) (60 * Second) 100
       [runningExecution] [runningExecution] = (Inr 1, [?timedOut])"
    by code_simp
  have h2: "[(''exec-1'', 10 * Second)]
       = queryStale (time_Add (100 * Second) (neg64 (60 * Second))) 100 [runningExecution]"
    by code_simp
  have h3: "60 * Second \<noteq> minDuration"
    by code_simp
  have h4: "distinct (map ExecutionID [runningExecution])"
    by simp
  note sweep = reaper_sweep_selects_and_times_out[OF h1 h2]
  from sweep have c1: "length [(''exec-1'', 10 * Second)] \<le> nat 100"
    by (rule conjunct1)
  from sweep h3 have c2: "time_Add (100 * Second) (neg64 (60 * Second)) = 100 * Second - 60 * Second"
    by blast
  from sweep have "timeoutRow (100 * Second) (staleDurationMS (100 * Second) (10 * Second))
        runningExecution
      = runningExecution\<lparr>Status := ''timeout'',
           ErrorMessage := Some ''execution timed out'',
           CompletedAt := Some (100 * Second),
           DurationMS :=
             Some (if 9223372036854775807 < 100 * Second - 10 * Second then 9223372036854
                   else max 0 (100 * Second - 10 * Second) div 1000000),
           UpdatedAt := 100 * Second\<rparr>"
    by blast
  then have c3: "timeoutRow (100 * Second) (staleDurationMS (100 * Second) (10 * Second))
        runningExecution = ?timedOut"
    by (simp add: Second_def)
  from h1 h2 h3 h4 c1 c2 c3 show ?thesis by blast
qed

text \<open>
  A running execution whose \<open>started_at\<close> lies \<open>10 ^ 19\<close> ns before the sweep at time 0:
  the sweep records a duration of 9223372036854 ms, while \<open>max 0 (now - started_at)\<close>
  is 10000000000000 ms.
\<close>

theorem reaper_duration_saturates:
  "map Status (snd (MarkStaleExecutions healthyDB 0 0 (60 * Second) 100
                      [ancientExecution] [ancientExecution])) = [''timeout'']
   \<and> map DurationMS (snd (MarkStaleExecutions healthyDB 0 0 (60 * Second) 100
                            [ancientExecution] [ancientExecution])) = [Some 9223372036854]
   \<and> max 0 (0 - StartedAt ancientExecution) div 1000000 = 10000000000000"
  by code_simp

section \<open>UpdateExecutionRecord: properties\<close>

lemma enrich_columns:
  "enrichExecutionWebhook env (Some e) b = Some e' \<Longrightarrow>
   e'\<lparr>WebhookRegistered := False, WebhookEvents := []\<rparr>
     = e\<lparr>WebhookRegistered := False, WebhookEvents := []\<rparr>"
  by (auto simp: enrichExecutionWebhook_def Let_def split: option.splits if_splits)

lemma enrich_Some: "\<exists>e'. enrichExecutionWebhook env (Some e) b = Some e'"
  by (simp add: enrichExecutionWebhook_def Let_def split: option.splits)

lemma enrich_None: "enrichExecutionWebhook env None b = None"
  by (simp add: enrichExecutionWebhook_def)

lemma selectExecution_Some:
  "selectExecution executionID store = Some row \<Longrightarrow> row \<in> set store \<and> ExecutionID row = executionID"
  by (auto simp: selectExecution_def find_Some_iff)

lemma selectExecution_None:
  "selectExecution executionID store = None \<longleftrightarrow> (\<forall>r \<in> set store. ExecutionID r \<noteq> executionID)"
  by (auto simp: selectExecution_def find_None_iff)

lemma writeColumns_simps:
  "ExecutionID (writeColumns u row) = ExecutionID row"
  "Status (writeColumns u row) = Status u"
  "CreatedAt (writeColumns u row) = CreatedAt row"
  by (simp_all add: writeColumns_def)

lemma updateExecution_ids: "map ExecutionID (updateExecution u store) = map ExecutionID store"
  by (simp add: updateExecution_def writeColumns_simps)

lemma updateExecution_absent:
  "\<forall>r \<in> set store. ExecutionID r \<noteq> ExecutionID u \<Longrightarrow> updateExecution u store = store"
  by (simp add: updateExecution_def map_idI)

lemma updateExecution_nth:
  "i < length store \<Longrightarrow>
   updateExecution u store ! i =
     (if ExecutionID (store ! i) = ExecutionID u then writeColumns u (store ! i) else store ! i)"
  by (simp add: updateExecution_def)

text \<open>The function once the transaction has begun and the row has been scanned.\<close>

lemma update_after_scan:
  assumes "\<not> beginTxFails env"
    and "scanExecution env (selectExecution executionID store) = Inr current"
  shows "UpdateExecutionRecord env now executionID (Some f) store =
     (case snd (f current) of
        Inl msg \<Rightarrow> (Inl (UpdaterError msg), store)
      | Inr None \<Rightarrow>
          if commitFails env then (Inl CommitExecutionUpdate, store)
          else (Inr (enrichExecutionWebhook env (map_option (fst (f current)) current) True),
                store)
      | Inr (Some u) \<Rightarrow>
          if execFails env then (Inl UpdateExecution, store)
          else if commitFails env then (Inl CommitExecutionUpdate, store)
          else (Inr (enrichExecutionWebhook env (Some (u\<lparr>UpdatedAt := now\<rparr>)) True),
                updateExecution (u\<lparr>UpdatedAt := now\<rparr>) store))"
  using assms
  by (simp add: UpdateExecutionRecord_def Let_def split_beta split: sum.splits option.splits)

lemma update_store_cases:
  "snd (UpdateExecutionRecord env now executionID updater store) = store
   \<or> (\<exists>u. snd (UpdateExecutionRecord env now executionID updater store)
             = updateExecution (u\<lparr>UpdatedAt := now\<rparr>) store)"
  by (auto simp: UpdateExecutionRecord_def Let_def split_beta split: option.splits sum.splits)

lemma update_nil_store:
  assumes "scanExecution env (selectExecution executionID store) = Inr current"
    and "snd (f current) = Inr None"
  shows "snd (UpdateExecutionRecord env now executionID (Some f) store) = store"
  using assms
  by (simp add: UpdateExecutionRecord_def split_beta)

text \<open>
  Claim C10, as the code has it. When the updater returns nil and no error for the record
  read, the table after the call is the table before it, on every path. If beginning
  and committing the transaction succeed, the call returns the record that was read as
  the updater left it, after the webhook annotation: up to its two webhook fields, the
  record returned is what the updater made of a row of the table with the requested id,
  and it is that row itself when the updater wrote nothing to the record it was handed.
\<close>

theorem update_returning_nil_is_noop:
  assumes "scanExecution env (selectExecution executionID store) = Inr current"
    and "f current = (written, Inr None)"
  shows "snd (UpdateExecutionRecord env now executionID (Some f) store) = store
    \<and> (\<not> beginTxFails env \<and> \<not> commitFails env \<longrightarrow>
          fst (UpdateExecutionRecord env now executionID (Some f) store)
            = Inr (enrichExecutionWebhook env (map_option written current) True))
    \<and> (\<forall>e. fst (UpdateExecutionRecord env now executionID (Some f) store) = Inr (Some e) \<longrightarrow>
          (\<exists>r \<in> set store. ExecutionID r = executionID
             \<and> e\<lparr>WebhookRegistered := False, WebhookEvents := []\<rparr>
               = (written (r\<lparr>WebhookRegistered := False, WebhookEvents := []\<rparr>))
                   \<lparr>WebhookRegistered := False, WebhookEvents := []\<rparr>
             \<and> (written (r\<lparr>WebhookRegistered := False, WebhookEvents := []\<rparr>)
                   = r\<lparr>WebhookRegistered := False, WebhookEvents := []\<rparr> \<longrightarrow>
                 e\<lparr>WebhookRegistered := False, WebhookEvents := []\<rparr>
                   = r\<lparr>WebhookRegistered := False, WebhookEvents := []\<rparr>)))"
proof (intro conjI allI impI)
  have nil: "snd (f current) = Inr None" and w: "fst (f current) = written"
    using assms(2) by simp_all
  show "snd (UpdateExecutionRecord env now executionID (Some f) store) = store"
    using assms(1) nil by (rule update_nil_store)
  show "fst (UpdateExecutionRecord env now executionID (Some f) store)
            = Inr (enrichExecutionWebhook env (map_option written current) True)"
    if "\<not> beginTxFails env \<and> \<not> commitFails env"
    using that assms(1) nil w by (simp add: update_after_scan)
  show "\<exists>r \<in> set store. ExecutionID r = executionID
             \<and> e\<lparr>WebhookRegistered := False, WebhookEvents := []\<rparr>
               = (written (r\<lparr>WebhookRegistered := False, WebhookEvents := []\<rparr>))
                   \<lparr>WebhookRegistered := False, WebhookEvents := []\<rparr>
             \<and> (written (r\<lparr>WebhookRegistered := False, WebhookEvents := []\<rparr>)
                   = r\<lparr>WebhookRegistered := False, WebhookEvents := []\<rparr> \<longrightarrow>
                 e\<lparr>WebhookRegistered := False, WebhookEvents := []\<rparr>
                   = r\<lparr>WebhookRegistered := False, WebhookEvents := []\<rparr>)"
    if ret: "fst (UpdateExecutionRecord env now executionID (Some f) store) = Inr (Some e)" for e
  proof -
    have nb: "\<not> beginTxFails env"
      using ret by (auto simp: UpdateExecutionRecord_def)
    from ret nil w assms(1) nb
    have en: "enrichExecutionWebhook env (map_option written current) True = Some e"
      by (simp add: update_after_scan split: if_splits)
    then obtain c where c: "current = Some c"
      by (cases current) (simp_all add: enrich_None)
    from assms(1) c obtain row where row: "selectExecution executionID store = Some row"
      and cr: "c = row\<lparr>WebhookRegistered := False, WebhookEvents := []\<rparr>"
      by (auto simp: scanExecution_def split: if_splits option.splits)
    from en c have "enrichExecutionWebhook env (Some (written c)) True = Some e" by simp
    from enrich_columns[OF this] cr
    have "e\<lparr>WebhookRegistered := False, WebhookEvents := []\<rparr>
        = (written (row\<lparr>WebhookRegistered := False, WebhookEvents := []\<rparr>))
            \<lparr>WebhookRegistered := False, WebhookEvents := []\<rparr>" by simp
    with selectExecution_Some[OF row] show ?thesis by auto
  qed
qed

theorem update_returning_nil_is_noop_witness:
  "scanExecution healthyDB (selectExecution ''exec-1'' [succeededExecution])
     = Inr (Some succeededExecution)
   \<and> returnNil (Some succeededExecution) = (id, Inr None)
   \<and> \<not> beginTxFails healthyDB \<and> \<not> commitFails healthyDB
   \<and> UpdateExecutionRecord healthyDB (5 * Second) ''exec-1'' (Some returnNil) [succeededExecution]
       = (Inr (Some succeededExecution), [succeededExecution])"
proof -
  have h1: "scanExecution healthyDB (selectExecution ''exec-1'' [succeededExecution])
     = Inr (Some succeededExecution)"
    by code_simp
  have h2: "returnNil (Some succeededExecution) = (id, Inr None)"
    by (simp add: returnNil_def)
  have h3: "\<not> beginTxFails healthyDB \<and> \<not> commitFails healthyDB"
    by (simp add: healthyDB_def)
  have h4: "enrichExecutionWebhook healthyDB (map_option id (Some succeededExecution)) True
     = Some succeededExecution"
    by code_simp
  note noop = update_returning_nil_is_noop[where f = returnNil
      and current = "Some succeededExecution" and now = "5 * Second", OF h1 h2]
  from noop h3 h4
  have "snd (UpdateExecutionRecord healthyDB (5 * Second) ''exec-1'' (Some returnNil)
          [succeededExecution]) = [succeededExecution]"
    and "fst (UpdateExecutionRecord healthyDB (5 * Second) ''exec-1'' (Some returnNil)
          [succeededExecution]) = Inr (Some succeededExecution)"
    by simp_all
  then have "UpdateExecutionRecord healthyDB (5 * Second) ''exec-1'' (Some returnNil)
          [succeededExecution] = (Inr (Some succeededExecution), [succeededExecution])"
    by (simp add: prod_eq_iff)
  with h1 h2 h3 show ?thesis by blast
qed

text \<open>
  An updater that sets the record it is handed to failed and then returns nil: the
  table keeps the row with status \<open>succeeded\<close>, and the record returned has status
  \<open>failed\<close>, so it is not the row as read.
\<close>

theorem update_returning_nil_returns_written_record:
  "snd (markFailedReturnNil (Some succeededExecution)) = Inr None
   \<and> Status succeededExecution = ''succeeded''
   \<and> UpdateExecutionRecord healthyDB (5 * Second) ''exec-1'' (Some markFailedReturnNil)
        [succeededExecution]
     = (Inr (Some (succeededExecution\<lparr>Status := ''failed'', ErrorMessage := Some ''boom''\<rparr>)),
        [succeededExecution])"
  by code_simp

text \<open>
  Claim C2, as the code has it. \<^verbatim>\<open>UpdateExecutionRecord\<close> does not look at the stored
  status. For a row that exists, with a database that does not fail: when the updater
  returns an error the call returns that error and the table is unchanged; when it
  returns nil the table is unchanged; and when it returns a record with the requested
  id the call succeeds, every row with that id then carries the status the updater
  returned, whether the stored status was terminal or not, and all other rows are
  unchanged.
\<close>

theorem update_persists_updater_status:
  assumes "selectExecution executionID store = Some row"
    and "\<not> beginTxFails env" and "\<not> scanFails env" and "\<not> execFails env" and "\<not> commitFails env"
    and "current = Some (row\<lparr>WebhookRegistered := False, WebhookEvents := []\<rparr>)"
  shows "(\<forall>msg. snd (f current) = Inl msg \<longrightarrow>
            UpdateExecutionRecord env now executionID (Some f) store
              = (Inl (UpdaterError msg), store))
    \<and> (snd (f current) = Inr None \<longrightarrow>
          snd (UpdateExecutionRecord env now executionID (Some f) store) = store)
    \<and> (\<forall>u. snd (f current) = Inr (Some u) \<and> ExecutionID u = executionID \<longrightarrow>
          (\<exists>e. fst (UpdateExecutionRecord env now executionID (Some f) store) = Inr (Some e)
                \<and> Status e = Status u)
          \<and> length (snd (UpdateExecutionRecord env now executionID (Some f) store))
              = length store
          \<and> (\<forall>i < length store.
                if ExecutionID (store ! i) = executionID
                then ExecutionID (snd (UpdateExecutionRecord env now executionID (Some f) store) ! i)
                       = executionID
                     \<and> Status (snd (UpdateExecutionRecord env now executionID (Some f) store) ! i)
                       = Status u
                else snd (UpdateExecutionRecord env now executionID (Some f) store) ! i
                       = store ! i))"
proof (intro conjI allI impI)
  have scan: "scanExecution env (selectExecution executionID store) = Inr current"
    using assms by (simp add: scanExecution_def)
  note after = update_after_scan[OF assms(2) scan, of now f]
  show "UpdateExecutionRecord env now executionID (Some f) store
          = (Inl (UpdaterError msg), store)" if "snd (f current) = Inl msg" for msg
    using that by (simp add: after)
  show "snd (UpdateExecutionRecord env now executionID (Some f) store) = store"
    if "snd (f current) = Inr None"
    using scan that by (rule update_nil_store)
  fix u
  assume u: "snd (f current) = Inr (Some u) \<and> ExecutionID u = executionID"
  let ?u = "u\<lparr>UpdatedAt := now\<rparr>"
  have R: "UpdateExecutionRecord env now executionID (Some f) store
      = (Inr (enrichExecutionWebhook env (Some ?u) True), updateExecution ?u store)"
    using u assms(4,5) by (simp add: after)
  obtain e where e: "enrichExecutionWebhook env (Some ?u) True = Some e"
    using enrich_Some by blast
  from enrich_columns[OF e] have "Status (e\<lparr>WebhookRegistered := False, WebhookEvents := []\<rparr>)
      = Status (?u\<lparr>WebhookRegistered := False, WebhookEvents := []\<rparr>)" by simp
  then have "Status e = Status u" by simp
  with R e show "\<exists>e. fst (UpdateExecutionRecord env now executionID (Some f) store) = Inr (Some e)
                \<and> Status e = Status u" by simp
  show "length (snd (UpdateExecutionRecord env now executionID (Some f) store)) = length store"
    using R by (simp add: updateExecution_def)
  fix i
  assume i: "i < length store"
  show "if ExecutionID (store ! i) = executionID
        then ExecutionID (snd (UpdateExecutionRecord env now executionID (Some f) store) ! i)
               = executionID
             \<and> Status (snd (UpdateExecutionRecord env now executionID (Some f) store) ! i)
               = Status u
        else snd (UpdateExecutionRecord env now executionID (Some f) store) ! i = store ! i"
    using R u i by (simp add: updateExecution_nth writeColumns_simps)
qed

theorem update_persists_updater_status_witness:
  "selectExecution ''exec-1'' [succeededExecution] = Some succeededExecution
   \<and> \<not> beginTxFails healthyDB \<and> \<not> scanFails healthyDB
   \<and> \<not> execFails healthyDB \<and> \<not> commitFails healthyDB
   \<and> snd (markFailed (Some succeededExecution))
       = Inr (Some (succeededExecution\<lparr>Status := ''failed'', ErrorMessage := Some ''boom''\<rparr>))
   \<and> ExecutionID (succeededExecution\<lparr>Status := ''failed'', ErrorMessage := Some ''boom''\<rparr>)
       = ''exec-1''
   \<and> Status (snd (UpdateExecutionRecord healthyDB (5 * Second) ''exec-1'' (Some markFailed)
                    [succeededExecution]) ! 0) = ''failed''"
proof -
  let ?u = "succeededExecution\<lparr>Status := ''failed'', ErrorMessage := Some ''boom''\<rparr>"
  have h1: "selectExecution ''exec-1'' [succeededExecution] = Some succeededExecution"
    by code_simp
  have h2: "\<not> beginTxFails healthyDB" and h3: "\<not> scanFails healthyDB"
    and h4: "\<not> execFails healthyDB" and h5: "\<not> commitFails healthyDB"
    by (simp_all add: healthyDB_def)
  have h6: "Some succeededExecution
      = Some (succeededExecution\<lparr>WebhookRegistered := False, WebhookEvents := []\<rparr>)"
    by code_simp
  have h7: "snd (markFailed (Some succeededExecution)) = Inr (Some ?u)"
    by (simp add: markFailed_def setFailed_def)
  have h8: "ExecutionID ?u = ''exec-1''"
    by code_simp
  have i: "(0::nat) < length [succeededExecution]" and k: "ExecutionID ([succeededExecution] ! 0) = ''exec-1''"
    by code_simp+
  note upd = update_persists_updater_status[where f = markFailed and now = "5 * Second",
      OF h1 h2 h3 h4 h5 h6]
  from upd h7 h8 i k
  have "Status (snd (UpdateExecutionRecord healthyDB (5 * Second) ''exec-1'' (Some markFailed)
                    [succeededExecution]) ! 0) = Status ?u"
    by (metis (no_types, lifting))
  then have "Status (snd (UpdateExecutionRecord healthyDB (5 * Second) ''exec-1'' (Some markFailed)
                    [succeededExecution]) ! 0) = ''failed''"
    by simp
  with h1 h2 h3 h4 h5 h7 h8 show ?thesis by blast
qed

text \<open>
  A stored execution with status \<open>succeeded\<close>, and an updater that sets \<open>failed\<close>: the call
  returns a record and the stored status is \<open>failed\<close> afterwards.
\<close>

theorem update_overwrites_terminal_status:
  "isTerminal (Status succeededExecution)
   \<and> isTerminal ''failed''
   \<and> UpdateExecutionRecord healthyDB (5 * Second) ''exec-1'' (Some markFailed) [succeededExecution]
     = (Inr (Some (succeededExecution\<lparr>Status := ''failed'', ErrorMessage := Some ''boom'',
                                       UpdatedAt := 5 * Second\<rparr>)),
        [succeededExecution\<lparr>Status := ''failed'', ErrorMessage := Some ''boom'',
                            UpdatedAt := 5 * Second\<rparr>])"
  by code_simp

text \<open>
  Claim C5, as the code has it. For an id with no row, \<^verbatim>\<open>scanExecution\<close> turns
  \<^verbatim>\<open>sql.ErrNoRows\<close> into a nil record and the updater is called with it. With a
  database that does not fail, the call returns an error exactly when the updater is
  nil or returns one, and then it is the updater's error; otherwise it returns what the
  updater returned and no error: nil for nil, and for a record that record with
  \<open>UpdatedAt\<close> set to the time of the call, after the webhook annotation. No row with
  the requested id comes into being, and the table is unchanged whenever the updater
  returns nil, an error, or a record with the requested id.
\<close>

theorem update_of_missing_row:
  assumes "selectExecution executionID store = None"
  shows "selectExecution executionID
           (snd (UpdateExecutionRecord env now executionID updater store)) = None
    \<and> (\<not> beginTxFails env \<and> \<not> scanFails env \<and> \<not> execFails env \<and> \<not> commitFails env \<longrightarrow>
          ((\<exists>err. fst (UpdateExecutionRecord env now executionID updater store) = Inl err)
             \<longleftrightarrow> (updater = None \<or> (\<exists>f msg. updater = Some f \<and> snd (f None) = Inl msg)))
          \<and> (\<forall>f msg. updater = Some f \<and> snd (f None) = Inl msg \<longrightarrow>
                fst (UpdateExecutionRecord env now executionID updater store)
                  = Inl (UpdaterError msg))
          \<and> (\<forall>f. updater = Some f \<and> snd (f None) = Inr None \<longrightarrow>
                fst (UpdateExecutionRecord env now executionID updater store) = Inr None)
          \<and> (\<forall>f u. updater = Some f \<and> snd (f None) = Inr (Some u) \<longrightarrow>
                fst (UpdateExecutionRecord env now executionID updater store)
                  = Inr (enrichExecutionWebhook env (Some (u\<lparr>UpdatedAt := now\<rparr>)) True)
                \<and> (\<exists>e. fst (UpdateExecutionRecord env now executionID updater store)
                          = Inr (Some e)
                        \<and> e\<lparr>WebhookRegistered := False, WebhookEvents := []\<rparr>
                          = u\<lparr>UpdatedAt := now, WebhookRegistered := False,
                              WebhookEvents := []\<rparr>)))
    \<and> (\<forall>f. updater = Some f
           \<and> (snd (f None) = Inr None \<or> (\<exists>msg. snd (f None) = Inl msg)
               \<or> (\<exists>u. snd (f None) = Inr (Some u) \<and> ExecutionID u = executionID)) \<longrightarrow>
          snd (UpdateExecutionRecord env now executionID updater store) = store)"
proof (intro conjI allI impI)
  let ?R = "UpdateExecutionRecord env now executionID updater store"
  from assms have absent: "\<forall>r \<in> set store. ExecutionID r \<noteq> executionID"
    by (simp add: selectExecution_None)
  have scan: "\<not> scanFails env \<Longrightarrow>
      scanExecution env (selectExecution executionID store) = Inr None"
    using assms by (simp add: scanExecution_def)
  have ids: "ExecutionID ` set (snd ?R) = ExecutionID ` set store"
    using update_store_cases[of env now executionID updater store]
      updateExecution_ids[of _ store]
    by (metis set_map)
  show "selectExecution executionID (snd ?R) = None"
    unfolding selectExecution_None
  proof
    fix r assume "r \<in> set (snd ?R)"
    then have "ExecutionID r \<in> ExecutionID ` set store"
      using ids by blast
    with absent show "ExecutionID r \<noteq> executionID" by auto
  qed
  {
    assume ok: "\<not> beginTxFails env \<and> \<not> scanFails env \<and> \<not> execFails env \<and> \<not> commitFails env"
    then have s: "scanExecution env (selectExecution executionID store) = Inr None"
      using scan by simp
    have after: "\<And>f. UpdateExecutionRecord env now executionID (Some f) store =
       (case snd (f None) of
          Inl msg \<Rightarrow> (Inl (UpdaterError msg), store)
        | Inr None \<Rightarrow> (Inr None, store)
        | Inr (Some u) \<Rightarrow>
            (Inr (enrichExecutionWebhook env (Some (u\<lparr>UpdatedAt := now\<rparr>)) True),
             updateExecution (u\<lparr>UpdatedAt := now\<rparr>) store))"
      using ok update_after_scan[OF _ s, of now]
      by (simp add: enrich_None split: sum.splits option.splits)
    show "(\<exists>err. fst ?R = Inl err)
          \<longleftrightarrow> (updater = None \<or> (\<exists>f msg. updater = Some f \<and> snd (f None) = Inl msg))"
    proof (cases updater)
      case None
      then show ?thesis by (simp add: UpdateExecutionRecord_def)
    next
      case (Some f)
      then show ?thesis
        by (simp add: after split: sum.splits option.splits)
    qed
    show "fst ?R = Inl (UpdaterError msg)"
      if "updater = Some f \<and> snd (f None) = Inl msg" for f msg
      using that by (simp add: after)
    show "fst ?R = Inr None" if "updater = Some f \<and> snd (f None) = Inr None" for f
      using that by (simp add: after)
    show "fst ?R = Inr (enrichExecutionWebhook env (Some (u\<lparr>UpdatedAt := now\<rparr>)) True)"
      if "updater = Some f \<and> snd (f None) = Inr (Some u)" for f u
      using that by (simp add: after)
    show "\<exists>e. fst ?R = Inr (Some e)
            \<and> e\<lparr>WebhookRegistered := False, WebhookEvents := []\<rparr>
              = u\<lparr>UpdatedAt := now, WebhookRegistered := False, WebhookEvents := []\<rparr>"
      if t: "updater = Some f \<and> snd (f None) = Inr (Some u)" for f u
    proof -
      obtain e where e: "enrichExecutionWebhook env (Some (u\<lparr>UpdatedAt := now\<rparr>)) True = Some e"
        using enrich_Some by blast
      from enrich_columns[OF e]
      have "e\<lparr>WebhookRegistered := False, WebhookEvents := []\<rparr>
          = u\<lparr>UpdatedAt := now, WebhookRegistered := False, WebhookEvents := []\<rparr>"
        by simp
      with t e show ?thesis by (simp add: after)
    qed
  }
  fix f
  assume f: "updater = Some f
           \<and> (snd (f None) = Inr None \<or> (\<exists>msg. snd (f None) = Inl msg)
               \<or> (\<exists>u. snd (f None) = Inr (Some u) \<and> ExecutionID u = executionID))"
  show "snd ?R = store"
  proof (cases "beginTxFails env \<or> scanFails env")
    case True
    with f show ?thesis
      by (auto simp: UpdateExecutionRecord_def scanExecution_def)
  next
    case False
    with scan have s: "scanExecution env (selectExecution executionID store) = Inr None"
      by simp
    from False have nb: "\<not> beginTxFails env" by simp
    note after = update_after_scan[OF nb s, of now f]
    from f consider "snd (f None) = Inr None" | msg where "snd (f None) = Inl msg"
      | u where "snd (f None) = Inr (Some u)" "ExecutionID u = executionID" by blast
    then show ?thesis
    proof cases
      case 1
      with f show ?thesis by (simp add: after)
    next
      case 2
      with f show ?thesis by (simp add: after)
    next
      case 3
      from 3(2) absent have "updateExecution (u\<lparr>UpdatedAt := now\<rparr>) store = store"
        by (intro updateExecution_absent) simp
      with 3 f show ?thesis by (simp add: after)
    qed
  qed
qed

theorem update_of_missing_row_witness:
  "selectExecution ''exec-9'' [runningExecution] = None
   \<and> \<not> beginTxFails healthyDB \<and> \<not> scanFails healthyDB
   \<and> \<not> execFails healthyDB \<and> \<not> commitFails healthyDB
   \<and> snd (markFailed None) = Inl ''execution not found''
   \<and> UpdateExecutionRecord healthyDB (5 * Second) ''exec-9'' (Some markFailed) [runningExecution]
       = (Inl (UpdaterError ''execution not found''), [runningExecution])
   \<and> snd (returnSucceeded None) = Inr (Some succeededExecution)
   \<and> fst (UpdateExecutionRecord healthyDB (5 * Second) ''exec-9'' (Some returnSucceeded)
             [runningExecution])
       = Inr (Some (succeededExecution\<lparr>UpdatedAt := 5 * Second\<rparr>))"
proof -
  have h1: "selectExecution ''exec-9'' [runningExecution] = None"
    by code_simp
  have h2: "\<not> beginTxFails healthyDB \<and> \<not> scanFails healthyDB
      \<and> \<not> execFails healthyDB \<and> \<not> commitFails healthyDB"
    by (simp add: healthyDB_def)
  have h3: "snd (markFailed None) = Inl ''execution not found''"
    by (simp add: markFailed_def)
  have h4: "snd (returnSucceeded None) = Inr (Some succeededExecution)"
    by (simp add: returnSucceeded_def)
  have h5: "enrichExecutionWebhook healthyDB (Some (succeededExecution\<lparr>UpdatedAt := 5 * Second\<rparr>))
      True = Some (succeededExecution\<lparr>UpdatedAt := 5 * Second\<rparr>)"
    by code_simp
  note missing = update_of_missing_row[OF h1, of healthyDB "5 * Second" "Some markFailed"]
  from missing h2 h3
  have "fst (UpdateExecutionRecord healthyDB (5 * Second) ''exec-9'' (Some markFailed)
      [runningExecution]) = Inl (UpdaterError ''execution not found'')"
    by blast
  moreover from missing h3
  have "snd (UpdateExecutionRecord healthyDB (5 * Second) ''exec-9'' (Some markFailed)
      [runningExecution]) = [runningExecution]"
    by blast
  ultimately have c1: "UpdateExecutionRecord healthyDB (5 * Second) ''exec-9'' (Some markFailed)
      [runningExecution] = (Inl (UpdaterError ''execution not found''), [runningExecution])"
    by (simp add: prod_eq_iff)
  from update_of_missing_row[OF h1, of healthyDB "5 * Second" "Some returnSucceeded"] h2 h4
  have "fst (UpdateExecutionRecord healthyDB (5 * Second) ''exec-9'' (Some returnSucceeded)
             [runningExecution])
       = Inr (enrichExecutionWebhook healthyDB
                (Some (succeededExecution\<lparr>UpdatedAt := 5 * Second\<rparr>)) True)"
    by blast
  then have c2: "fst (UpdateExecutionRecord healthyDB (5 * Second) ''exec-9''
      (Some returnSucceeded) [runningExecution])
       = Inr (Some (succeededExecution\<lparr>UpdatedAt := 5 * Second\<rparr>))"
    by (simp only: h5)
  from h1 h2 h3 h4 c1 c2 show ?thesis by blast
qed

text \<open>
  No row has the id \<open>exec-9\<close>. With an updater that returns nil the call returns
  \<^verbatim>\<open>(nil, nil)\<close>; with one that returns a record it returns that record; neither
  call returns an error.
\<close>

theorem update_of_missing_row_succeeds:
  "selectExecution ''exec-9'' [runningExecution] = None
   \<and> UpdateExecutionRecord healthyDB (5 * Second) ''exec-9'' (Some returnNil) [runningExecution]
     = (Inr None, [runningExecution])
   \<and> fst (UpdateExecutionRecord healthyDB (5 * Second) ''exec-9'' (Some returnSucceeded) [])
     = Inr (Some (succeededExecution\<lparr>UpdatedAt := 5 * Second\<rparr>))"
  by code_simp

section \<open>Health Monitor: properties\<close>

lemma healthCheckUpdate_simps:
  "healthCheckUpdate HealthStatusActive =
     \<lparr>State = Some AgentStateActive, HealthScore = Some 75,
      Source = StatusSourceHealthCheck, Reason = ''HTTP health check result''\<rparr>"
  "healthCheckUpdate HealthStatusInactive =
     \<lparr>State = Some AgentStateInactive, HealthScore = Some 0,
      Source = StatusSourceHealthCheck, Reason = ''HTTP health check result''\<rparr>"
  by (simp_all add: healthCheckUpdate_def)

lemma probeStatus_cases:
  "probeStatus p = (if p = ProbeStatus ''running'' then HealthStatusActive else HealthStatusInactive)"
  by (cases p) (simp_all add: probeStatus_def)

lemma reportStatus_updates:
  "UpdateAgentStatus n u \<in> set (reportStatus env touchedAt nodeID newStatus) \<Longrightarrow>
   n = nodeID \<and> u = healthCheckUpdate newStatus"
  by (auto simp: reportStatus_def split: if_splits)

lemma checkAgentHealth_out:
  assumes "activeAgents nodeID = Some agent"
  shows "snd (checkAgentHealth env checkedAt laterAt touchedAt p nodeID activeAgents) =
     (if LastStatus agent = probeStatus p then []
      else reportStatus env touchedAt nodeID (probeStatus p))"
  using assms
  by (cases "probeStatus p") (simp_all add: checkAgentHealth_def Let_def probeStatus_cases)

lemma checkAgentHealth_status:
  assumes "activeAgents nodeID = Some agent"
  shows "\<exists>a'. fst (checkAgentHealth env checkedAt laterAt touchedAt p nodeID activeAgents) nodeID
               = Some a' \<and> LastStatus a' = probeStatus p"
  using assms
  by (cases "probeStatus p") (simp_all add: checkAgentHealth_def Let_def probeStatus_cases)

text \<open>
  Claim C8. For an agent in the active registry, the status recorded by a poll is
  \<open>active\<close> when the probe answered \<open>running\<close> and \<open>inactive\<close> when the probe failed or
  answered anything else. A poll whose mapped status equals the status recorded before
  makes no call at all. Every Status Manager update a poll sends is for the polled
  agent, is sent by a poll whose mapped status differs from the status recorded before,
  and carries state \<open>active\<close> with health score 75 for \<open>running\<close> and state \<open>inactive\<close>
  with health score 0 otherwise. With a Status Manager configured, a poll whose mapped
  status differs from the recorded one sends that update first.
\<close>

theorem health_probe_mapped_and_pushed_on_change:
  assumes "activeAgents nodeID = Some agent"
    and "checkAgentHealth env checkedAt laterAt touchedAt p nodeID activeAgents = (agents', out)"
    and "mapped = (if p = ProbeStatus ''running'' then HealthStatusActive else HealthStatusInactive)"
    and "update = \<lparr>State = Some (if p = ProbeStatus ''running'' then AgentStateActive
                                 else AgentStateInactive),
                   HealthScore = Some (if p = ProbeStatus ''running'' then 75 else 0),
                   Source = StatusSourceHealthCheck,
                   Reason = ''HTTP health check result''\<rparr>"
  shows "(\<exists>a'. agents' nodeID = Some a' \<and> LastStatus a' = mapped)
    \<and> (LastStatus agent = mapped \<longrightarrow> out = [])
    \<and> (\<forall>n u. UpdateAgentStatus n u \<in> set out \<longrightarrow>
          n = nodeID \<and> LastStatus agent \<noteq> mapped \<and> u = update)
    \<and> (hasStatusManager env \<and> LastStatus agent \<noteq> mapped \<longrightarrow>
          (\<exists>rest. out = UpdateAgentStatus nodeID update # rest))"
proof -
  have m: "probeStatus p = mapped"
    by (simp add: assms(3) probeStatus_cases)
  have u: "healthCheckUpdate mapped = update"
    by (simp add: assms(3,4) healthCheckUpdate_simps)
  have o: "out = (if LastStatus agent = mapped then []
                  else reportStatus env touchedAt nodeID mapped)"
    using checkAgentHealth_out[where activeAgents = activeAgents and nodeID = nodeID
      and agent = agent and env = env and checkedAt = checkedAt and laterAt = laterAt
      and touchedAt = touchedAt and p = p, OF assms(1)]
    by (simp add: assms(2) m)
  have a: "\<exists>a'. agents' nodeID = Some a' \<and> LastStatus a' = mapped"
    using checkAgentHealth_status[where activeAgents = activeAgents and nodeID = nodeID
      and agent = agent and env = env and checkedAt = checkedAt and laterAt = laterAt
      and touchedAt = touchedAt and p = p, OF assms(1)]
    by (simp add: assms(2) m)
  have "\<forall>n u. UpdateAgentStatus n u \<in> set out \<longrightarrow>
          n = nodeID \<and> LastStatus agent \<noteq> mapped \<and> u = update"
  proof (intro allI impI)
    fix n u0
    assume mem: "UpdateAgentStatus n u0 \<in> set out"
    with o have ne: "LastStatus agent \<noteq> mapped"
      by (auto split: if_splits)
    with o mem have "UpdateAgentStatus n u0 \<in> set (reportStatus env touchedAt nodeID mapped)"
      by simp
    from reportStatus_updates[OF this] ne u
    show "n = nodeID \<and> LastStatus agent \<noteq> mapped \<and> u0 = update" by simp
  qed
  moreover have "hasStatusManager env \<and> LastStatus agent \<noteq> mapped \<longrightarrow>
      (\<exists>rest. out = UpdateAgentStatus nodeID update # rest)"
    using o u by (simp add: reportStatus_def)
  moreover have "LastStatus agent = mapped \<longrightarrow> out = []"
    using o by simp
  ultimately show ?thesis using a by blast
qed

theorem health_probe_mapped_and_pushed_on_change_witness:
  "registeredAt0 ''node-1''
     = Some \<lparr>ActiveNodeID = ''node-1'', BaseURL = ''http://node-1'',
             LastStatus = HealthStatusUnknown, LastChecked = 0\<rparr>
   \<and> hasStatusManager fullMonitor
   \<and> snd (checkAgentHealth fullMonitor (100 * Second) (100 * Second) (100 * Second)
            (ProbeStatus ''running'') ''node-1'' registeredAt0)
       = [UpdateAgentStatus ''node-1''
            \<lparr>State = Some AgentStateActive, HealthScore = Some 75,
             Source = StatusSourceHealthCheck, Reason = ''HTTP health check result''\<rparr>,
          PresenceTouch ''node-1'' (100 * Second), CheckMCPHealth ''node-1'']
   \<and> (\<exists>a'. upAt100 ''node-1'' = Some a' \<and> LastStatus a' = HealthStatusActive)
   \<and> snd (checkAgentHealth fullMonitor (105 * Second) (105 * Second) (105 * Second)
            (ProbeStatus ''running'') ''node-1'' upAt100) = []"
proof -
  let ?agent = "\<lparr>ActiveNodeID = ''node-1'', BaseURL = ''http://node-1'',
             LastStatus = HealthStatusUnknown, LastChecked = 0\<rparr>"
  let ?out = "[UpdateAgentStatus ''node-1''
            \<lparr>State = Some AgentStateActive, HealthScore = Some 75,
             Source = StatusSourceHealthCheck, Reason = ''HTTP health check result''\<rparr>,
          PresenceTouch ''node-1'' (100 * Second), CheckMCPHealth ''node-1'']"
  have h1: "registeredAt0 ''node-1'' = Some ?agent"
    by code_simp
  have h2: "checkAgentHealth fullMonitor (100 * Second) (100 * Second) (100 * Second)
            (ProbeStatus ''running'') ''node-1'' registeredAt0 = (upAt100, ?out)"
    unfolding upAt100_def prod_eq_iff fst_conv snd_conv
    by (rule conjI, rule refl) code_simp
  have h3: "hasStatusManager fullMonitor"
    by (simp add: fullMonitor_def)
  from health_probe_mapped_and_pushed_on_change[where activeAgents = registeredAt0
      and nodeID = "''node-1''" and agent = ?agent, OF h1 h2 refl refl]
  have c1: "\<exists>a'. upAt100 ''node-1'' = Some a' \<and> LastStatus a' = HealthStatusActive"
    by simp
  then obtain a' where a': "upAt100 ''node-1'' = Some a'" "LastStatus a' = HealthStatusActive"
    by blast
  obtain agents2 out2 where h4: "checkAgentHealth fullMonitor (105 * Second) (105 * Second)
      (105 * Second) (ProbeStatus ''running'') ''node-1'' upAt100 = (agents2, out2)"
    by (cases "checkAgentHealth fullMonitor (105 * Second) (105 * Second)
      (105 * Second) (ProbeStatus ''running'') ''node-1'' upAt100")
  from health_probe_mapped_and_pushed_on_change[where activeAgents = upAt100
      and nodeID = "''node-1''" and agent = a', OF a'(1) h4 refl refl] a'(2)
  have "out2 = []" by simp
  with h4 have c2: "snd (checkAgentHealth fullMonitor (105 * Second) (105 * Second) (105 * Second)
            (ProbeStatus ''running'') ''node-1'' upAt100) = []"
    by simp
  from h1 h2 h3 c1 c2 show ?thesis by simp
qed

text \<open>
  Claim C3 fails on the code. The agent \<open>node-1\<close> is marked inactive by the failed poll
  at 110 s, which reports the inactive state. The poll at 120 s, 10 s later and inside
  the 30 s window, gets \<open>running\<close> and reports the agent active with health score 75:
  by the time the debounce test reads \<open>LastStatus\<close>, the new status has already been
  stored in it, so the test for a previous inactive status never holds.
\<close>

theorem active_reported_inside_stability_window:
  "snd (checkAgentHealth fullMonitor (110 * Second) (110 * Second) (110 * Second)
          ProbeError ''node-1'' upAt100)
     = [UpdateAgentStatus ''node-1''
          \<lparr>State = Some AgentStateInactive, HealthScore = Some 0,
           Source = StatusSourceHealthCheck, Reason = ''HTTP health check result''\<rparr>]
   \<and> downAt110 ''node-1''
     = Some \<lparr>ActiveNodeID = ''node-1'', BaseURL = ''http://node-1'',
             LastStatus = HealthStatusInactive, LastChecked = 110 * Second\<rparr>
   \<and> time_Sub (120 * Second) (110 * Second) < 30 * Second
   \<and> snd (checkAgentHealth fullMonitor (120 * Second) (120 * Second) (120 * Second)
            (ProbeStatus ''running'') ''node-1'' downAt110)
     = [UpdateAgentStatus ''node-1''
          \<lparr>State = Some AgentStateActive, HealthScore = Some 75,
           Source = StatusSourceHealthCheck, Reason = ''HTTP health check result''\<rparr>,
        PresenceTouch ''node-1'' (120 * Second), CheckMCPHealth ''node-1'']"
  by code_simp

section \<open>Dashboard median: properties\<close>

lemma excessBits_small: "m < 2 ^ 53 \<Longrightarrow> excessBits m = 0"
  by (subst excessBits.simps) simp

lemma float64_exact:
  assumes "\<bar>n\<bar> < 2 ^ 53"
  shows "float64 n = of_int n"
proof (cases "n < 0")
  case True
  with assms have "excessBits (- n) = 0"
    by (intro excessBits_small) simp
  with True show ?thesis
    by (simp add: float64_def roundToEven_def Let_def)
next
  case False
  with assms have "excessBits n = 0"
    by (intro excessBits_small) simp
  with False show ?thesis
    by (simp add: float64_def roundToEven_def Let_def)
qed

lemma wrap64_id: "- (2 ^ 63) \<le> x \<Longrightarrow> x < 2 ^ 63 \<Longrightarrow> wrap64 x = x"
  by (simp add: wrap64_def)

lemma sort_nth_bounded:
  assumes "\<forall>v \<in> set values. \<bar>v\<bar> < (2 ^ 52 :: int)" and "i < length values"
  shows "\<bar>sort values ! i\<bar> < 2 ^ 52"
proof -
  from assms(2) have "i < length (sort values)" by simp
  then have "sort values ! i \<in> set (sort values)" by (rule nth_mem)
  then have "sort values ! i \<in> set values" by simp
  with assms(1) show ?thesis by blast
qed

lemma abs_sum_bound:
  fixes a b c :: int
  shows "\<bar>a\<bar> < c \<Longrightarrow> \<bar>b\<bar> < c \<Longrightarrow> \<bar>a + b\<bar> < 2 * c"
  by linarith

lemma computeMedian_odd:
  "values \<noteq> [] \<Longrightarrow> odd (length values) \<Longrightarrow>
   computeMedian values = float64 (sort values ! (length values div 2))"
  by (simp add: computeMedian_def Let_def odd_iff_mod_2_eq_one)

lemma computeMedian_even:
  "values \<noteq> [] \<Longrightarrow> even (length values) \<Longrightarrow>
   computeMedian values =
     float64 (wrap64 (sort values ! (length values div 2 - 1)
                      + sort values ! (length values div 2))) / 2"
  by (simp add: computeMedian_def Let_def even_iff_mod_2_eq_zero)

text \<open>
  Claim C9, as the code has it. The median of no samples is 0. For samples that are all
  smaller than \<open>2 ^ 52\<close> in magnitude, \<^verbatim>\<open>computeMedian\<close> returns the middle element of
  the samples sorted in ascending order when their number is odd, and the arithmetic
  mean of the two middle elements when it is even. Outside that range the sum of the two
  middle elements may wrap around and the conversion to \<^verbatim>\<open>float64\<close> may round.
\<close>

theorem computeMedian_of_bounded_samples:
  "computeMedian [] = 0
   \<and> (values \<noteq> [] \<and> (\<forall>v \<in> set values. \<bar>v\<bar> < 2 ^ 52) \<longrightarrow>
        sorted (sort values) \<and> mset (sort values) = mset values
        \<and> (odd (length values) \<longrightarrow>
              computeMedian values = of_int (sort values ! (length values div 2)))
        \<and> (even (length values) \<longrightarrow>
              computeMedian values =
                (of_int (sort values ! (length values div 2 - 1))
                 + of_int (sort values ! (length values div 2))) / 2))"
proof (intro conjI impI)
  show "computeMedian [] = 0"
    by (simp add: computeMedian_def)
next
  assume a: "values \<noteq> [] \<and> (\<forall>v \<in> set values. \<bar>v\<bar> < 2 ^ 52)"
  then have ne: "values \<noteq> []" and b: "\<forall>v \<in> set values. \<bar>v\<bar> < (2 ^ 52 :: int)"
    by simp_all
  let ?n = "length values"
  let ?s = "sort values"
  have pos: "0 < ?n" using ne by simp
  have mid: "?n div 2 < ?n" using pos by simp
  show "sorted ?s" by (rule sorted_sort)
  show "mset ?s = mset values" by (rule mset_sort)
  show "computeMedian values = of_int (?s ! (?n div 2))" if "odd ?n"
  proof -
    have "\<bar>?s ! (?n div 2)\<bar> < 2 ^ 52"
      using b mid by (rule sort_nth_bounded)
    also have "(2 ^ 52 :: int) < 2 ^ 53" by simp
    finally have "float64 (?s ! (?n div 2)) = of_int (?s ! (?n div 2))"
      by (rule float64_exact)
    with computeMedian_odd[OF ne that] show ?thesis by (simp only:)
  qed
  show "computeMedian values = (of_int (?s ! (?n div 2 - 1)) + of_int (?s ! (?n div 2))) / 2"
    if "even ?n"
  proof -
    have lo: "?n div 2 - 1 < ?n" using pos by arith
    let ?a = "?s ! (?n div 2 - 1)" and ?b = "?s ! (?n div 2)"
    have ab: "\<bar>?a\<bar> < 2 ^ 52" "\<bar>?b\<bar> < 2 ^ 52"
      using sort_nth_bounded[OF b lo] sort_nth_bounded[OF b mid] by blast+
    have "\<bar>?a + ?b\<bar> < 2 * 2 ^ 52"
      using ab by (rule abs_sum_bound)
    then have sum: "\<bar>?a + ?b\<bar> < 2 ^ 53" by simp
    have lo63: "- (2 ^ 63) \<le> ?a + ?b" and hi63: "?a + ?b < 2 ^ 63"
      using sum by simp_all
    have w: "wrap64 (?a + ?b) = ?a + ?b"
      using lo63 hi63 by (rule wrap64_id)
    have f: "float64 (?a + ?b) = of_int (?a + ?b)"
      using sum by (rule float64_exact)
    have "computeMedian values = float64 (wrap64 (?a + ?b)) / 2"
      using ne that by (rule computeMedian_even)
    also have "\<dots> = of_int (?a + ?b) / 2"
      by (simp only: w f)
    also have "\<dots> = (of_int ?a + of_int ?b) / 2"
      by (simp only: of_int_add)
    finally show ?thesis .
  qed
qed

theorem computeMedian_of_bounded_samples_witness:
  "[3, 1, 2, 4] \<noteq> ([] :: int list)
   \<and> \<bar>3 :: int\<bar> < 2 ^ 52 \<and> \<bar>1 :: int\<bar> < 2 ^ 52
   \<and> \<bar>2 :: int\<bar> < 2 ^ 52 \<and> \<bar>4 :: int\<bar> < 2 ^ 52
   \<and> even (length [3, 1, 2, 4 :: int])
   \<and> sort [3, 1, 2, 4 :: int] = [1, 2, 3, 4]
   \<and> computeMedian [3, 1, 2, 4] = 5 / 2"
proof -
  have h1: "[3, 1, 2, 4] \<noteq> ([] :: int list)"
    and h2: "\<forall>v \<in> set [3, 1, 2, 4 :: int]. \<bar>v\<bar> < 2 ^ 52"
    and h3: "even (length [3, 1, 2, 4 :: int])"
    by simp_all
  have s: "sort [3, 1, 2, 4 :: int] = [1, 2, 3, 4]"
    by code_simp
  from computeMedian_of_bounded_samples[of "[3, 1, 2, 4]"] h1 h2 h3
  have "computeMedian [3, 1, 2, 4] =
      (of_int (sort [3, 1, 2, 4] ! (length [3, 1, 2, 4 :: int] div 2 - 1))
       + of_int (sort [3, 1, 2, 4] ! (length [3, 1, 2, 4 :: int] div 2))) / 2"
    by blast
  then have "computeMedian [3, 1, 2, 4] = 5 / 2"
    unfolding s by simp
  with h1 h3 s show ?thesis by simp
qed

text \<open>
  Two samples of \<open>2 ^ 62\<close> milliseconds: their int64 sum wraps to \<open>- 2 ^ 63\<close>, and the
  value returned is \<open>- 2 ^ 62\<close>, while their mean is \<open>2 ^ 62\<close>. One sample of
  \<open>2 ^ 53 + 1\<close>: the value returned is \<open>2 ^ 53\<close>.
\<close>

theorem computeMedian_wraps_and_rounds:
  "computeMedian [4611686018427387904, 4611686018427387904] = - 4611686018427387904
   \<and> (real_of_int 4611686018427387904 + real_of_int 4611686018427387904) / 2
       = 4611686018427387904
   \<and> computeMedian [9007199254740993] = 9007199254740992"
  by code_simp

end
